theory Spec2Isabelle
  imports Complex_Main "HOL-Library.AList" "HOL-Library.Multiset"
begin

section \<open>Conventions of the embedding\<close>

text \<open>
  Python floats are modelled as \<^typ>\<open>real\<close>: the development is about the algorithms of
  the simulation core, not about binary rounding.  Python dictionaries, which iterate in
  insertion order, are association lists; \<^const>\<open>map_of\<close> is \<open>dict.get\<close> and
  \<^const>\<open>AList.update\<close> is item assignment (an existing key keeps its position, a new key
  goes to the end).  Objects that the source mutates in place through a reference held in a
  dictionary are updated in the dictionary under their key.  Every operation that can raise
  returns its outcome together with the state it leaves behind.
\<close>

datatype error = ValueError | FilesystemError | ZeroDivisionError

section \<open>systems/event\_queue.py\<close>

datatype EventType =
    COMMAND_ENTERED | SCAN_STARTED | SCAN_COMPLETE | CARVE_STARTED | CARVE_COMPLETE
  | RECONSTRUCT_START | RECONSTRUCT_END
  | NODE_REVEALED | NODE_CORRUPTED | ARTIFACT_FOUND
  | DAEMON_SPOTTED | DAEMON_ALERT | DAEMON_PACIFIED
  | RESOURCE_CHANGED | RESOURCE_DEPLETED
  | LOG_ENTRY_ADDED
  | TURN_ADVANCED | GAME_STATE_PUSH | GAME_STATE_POP | QUIT_REQUESTED

datatype Timing = IMMEDIATE | DEFERRED

text \<open>The values that the source stores in event payloads.\<close>

datatype pyval = VStr string | VFloat real | VInt int | VBool bool | VNone

record Event =
  etype :: EventType
  payload :: "(string \<times> pyval) list"
  timing :: Timing
  source :: string

text \<open>Handlers are identified by a number; their bodies are a parameter of \<open>flush\<close>.\<close>

type_synonym hid = nat

record EventQueue =
  pending :: "Event list"
  deferred :: "Event list"
  subscribers :: "EventType \<Rightarrow> hid list"
  turn :: int
  flushing :: bool

definition EventQueue_init :: EventQueue where
  "EventQueue_init =
     \<lparr>pending = [], deferred = [], subscribers = (\<lambda>_. []), turn = 0, flushing = False\<rparr>"

definition post :: "Event \<Rightarrow> EventQueue \<Rightarrow> EventQueue" where
  "post event q =
     (if timing event = DEFERRED then q\<lparr>deferred := deferred q @ [event]\<rparr>
      else q\<lparr>pending := pending q @ [event]\<rparr>)"

definition post_immediate ::
  "EventType \<Rightarrow> (string \<times> pyval) list \<Rightarrow> string \<Rightarrow> EventQueue \<Rightarrow> EventQueue" where
  "post_immediate event_type pl src q =
     post \<lparr>etype = event_type, payload = pl, timing = IMMEDIATE, source = src\<rparr> q"

definition subscribe :: "EventType \<Rightarrow> hid \<Rightarrow> EventQueue \<Rightarrow> EventQueue" where
  "subscribe event_type handler q =
     (if handler \<in> set (subscribers q event_type) then q
      else q\<lparr>subscribers := (subscribers q)(event_type := subscribers q event_type @ [handler])\<rparr>)"

definition unsubscribe :: "EventType \<Rightarrow> hid \<Rightarrow> EventQueue \<Rightarrow> EventQueue" where
  "unsubscribe event_type handler q =
     q\<lparr>subscribers := (subscribers q)(event_type := remove1 handler (subscribers q event_type))\<rparr>"

definition advance_turn :: "EventQueue \<Rightarrow> EventQueue" where
  "advance_turn q =
     post_immediate TURN_ADVANCED [(''turn'', VInt (turn q + 1))] ''EventQueue''
       (q\<lparr>turn := turn q + 1, pending := pending q @ deferred q, deferred := []\<rparr>)"

subsection \<open>flush\<close>

text \<open>
  A handler is a callable of the host program.  Here it is a function that, given the
  event and the state of the world outside the queue (\<open>hstate\<close>), returns the calls it makes
  on the queue, in order, and the new outside state: it may post events, immediate or
  deferred, and call \<open>flush\<close>.  A handler that raises is covered, since \<open>flush\<close> catches the
  exception and goes on: its calls are the ones made before the raise.  Handlers that change
  subscriptions while a flush runs are outside the model.  \<open>trace\<close> is not a field of the
  source: it records each handler call with the calls it made, so that the order of
  dispatch can be stated.

  The \<open>while\<close> loop of \<open>flush\<close> need not end (a handler may post a new event each time it
  runs), so the loop carries fuel, one unit per event dispatched; \<open>None\<close> is a flush that
  has not returned within the fuel.  \<open>flush_with\<close> is the body of \<open>flush\<close> around the loop:
  the re-entrancy guard, the flag, and the \<open>finally\<close> block.
\<close>

datatype action = APost Event | AFlush

record 'h Bus =
  evq :: EventQueue
  hstate :: 'h
  trace :: "(hid \<times> Event \<times> action list) list"

type_synonym 'h handlers = "hid \<Rightarrow> Event \<Rightarrow> 'h \<Rightarrow> action list \<times> 'h"

fun run_actions :: "('h Bus \<Rightarrow> 'h Bus option) \<Rightarrow> action list \<Rightarrow> 'h Bus \<Rightarrow> 'h Bus option" where
  "run_actions F [] st = Some st"
| "run_actions F (APost ev # acts) st = run_actions F acts (st\<lparr>evq := post ev (evq st)\<rparr>)"
| "run_actions F (AFlush # acts) st =
     (case F st of None \<Rightarrow> None | Some st' \<Rightarrow> run_actions F acts st')"

fun run_handlers ::
  "('h Bus \<Rightarrow> 'h Bus option) \<Rightarrow> 'h handlers \<Rightarrow> Event \<Rightarrow> hid list \<Rightarrow> 'h Bus \<Rightarrow> 'h Bus option" where
  "run_handlers F H ev [] st = Some st"
| "run_handlers F H ev (h # hs) st =
     (case H h ev (hstate st) of
        (acts, s') \<Rightarrow>
          (case run_actions F acts (st\<lparr>hstate := s', trace := trace st @ [(h, ev, acts)]\<rparr>) of
             None \<Rightarrow> None
           | Some st' \<Rightarrow> run_handlers F H ev hs st'))"

definition flush_with :: "('h Bus \<Rightarrow> 'h Bus option) \<Rightarrow> 'h Bus \<Rightarrow> 'h Bus option" where
  "flush_with L st =
     (if flushing (evq st) then Some st
      else (case L (st\<lparr>evq := (evq st)\<lparr>flushing := True\<rparr>\<rparr>) of
              None \<Rightarrow> None
            | Some st' \<Rightarrow> Some (st'\<lparr>evq := (evq st')\<lparr>pending := [], flushing := False\<rparr>\<rparr>)))"

fun flush_loop :: "nat \<Rightarrow> 'h handlers \<Rightarrow> nat \<Rightarrow> 'h Bus \<Rightarrow> 'h Bus option" where
  "flush_loop fuel H i st =
     (if i < length (pending (evq st)) then
        (case fuel of
           0 \<Rightarrow> None
         | Suc n \<Rightarrow>
             (case run_handlers (flush_with (\<lambda>s. flush_loop n H 0 s)) H (pending (evq st) ! i)
                     (subscribers (evq st) (etype (pending (evq st) ! i))) st of
                None \<Rightarrow> None
              | Some st' \<Rightarrow> flush_loop n H (i + 1) st'))
      else Some st)"

definition flush :: "nat \<Rightarrow> 'h handlers \<Rightarrow> 'h Bus \<Rightarrow> 'h Bus option" where
  "flush fuel H st = flush_with (\<lambda>s. flush_loop fuel H 0 s) st"

declare flush_loop.simps [simp del]

text \<open>
  Words of the specification: the immediate and the deferred events among the calls of a
  handler, the immediate events posted in a stretch of the trace, the deliveries owed to a
  list of events (each event, in order, to every subscriber of its type, in subscription
  order), and handlers whose immediate posts always rank below the event they answer.
\<close>

definition immediate_posts :: "action list \<Rightarrow> Event list" where
  "immediate_posts acts = concat (map (\<lambda>a. case a of
       APost ev \<Rightarrow> (if timing ev = DEFERRED then [] else [ev]) | AFlush \<Rightarrow> []) acts)"

definition deferred_posts :: "action list \<Rightarrow> Event list" where
  "deferred_posts acts = concat (map (\<lambda>a. case a of
       APost ev \<Rightarrow> (if timing ev = DEFERRED then [ev] else []) | AFlush \<Rightarrow> []) acts)"

definition posted :: "(hid \<times> Event \<times> action list) list \<Rightarrow> Event list" where
  "posted tr = concat (map (\<lambda>(h, ev, acts). immediate_posts acts) tr)"

definition deliveries :: "EventQueue \<Rightarrow> Event list \<Rightarrow> (hid \<times> Event) list" where
  "deliveries q evs = concat (map (\<lambda>ev. map (\<lambda>h. (h, ev)) (subscribers q (etype ev))) evs)"

definition descending :: "(Event \<Rightarrow> nat) \<Rightarrow> 'h handlers \<Rightarrow> bool" where
  "descending r H = (\<forall>h ev s. \<forall>e \<in> set (immediate_posts (fst (H h ev s))). r e < r ev)"

section \<open>systems/resource\_manager.py\<close>

datatype Resource = POWER | MEMORY | ENERGY

fun Resource_name :: "Resource \<Rightarrow> string" where
  "Resource_name POWER = ''POWER''"
| "Resource_name MEMORY = ''MEMORY''"
| "Resource_name ENERGY = ''ENERGY''"

record ResourceSlot =
  current :: real
  maximum :: real

definition is_depleted :: "ResourceSlot \<Rightarrow> bool" where
  "is_depleted s = (current s \<le> 0)"

definition ratio :: "ResourceSlot \<Rightarrow> real" where
  "ratio s = (if maximum s \<le> 0 then 0 else max 0 (min 1 (current s / maximum s)))"

record ResourceManager =
  slots :: "Resource \<Rightarrow> ResourceSlot"
  energy_drain :: real

definition ResourceManager_init :: "real \<Rightarrow> real \<Rightarrow> real \<Rightarrow> real \<Rightarrow> ResourceManager" where
  "ResourceManager_init pw mem en drain =
     \<lparr>slots = (\<lambda>r. case r of
          POWER \<Rightarrow> \<lparr>current = pw, maximum = pw\<rparr>
        | MEMORY \<Rightarrow> \<lparr>current = mem, maximum = mem\<rparr>
        | ENERGY \<Rightarrow> \<lparr>current = en, maximum = en\<rparr>),
      energy_drain = drain\<rparr>"

definition can_afford :: "ResourceManager \<Rightarrow> Resource \<Rightarrow> real \<Rightarrow> bool" where
  "can_afford rm resource amount = (current (slots rm resource) \<ge> amount)"

definition changed_event :: "ResourceManager \<Rightarrow> Resource \<Rightarrow> real \<Rightarrow> string \<Rightarrow> Event" where
  "changed_event rm resource delta src =
     \<lparr>etype = RESOURCE_CHANGED,
      payload = [(''resource'', VStr (Resource_name resource)),
                 (''delta'', VFloat delta),
                 (''current'', VFloat (current (slots rm resource))),
                 (''maximum'', VFloat (maximum (slots rm resource))),
                 (''ratio'', VFloat (ratio (slots rm resource))),
                 (''source'', VStr src)],
      timing = IMMEDIATE, source = ''ResourceManager''\<rparr>"

definition post_changed ::
  "ResourceManager \<Rightarrow> Resource \<Rightarrow> real \<Rightarrow> string \<Rightarrow> EventQueue \<Rightarrow> EventQueue" where
  "post_changed rm resource delta src q =
     post_immediate RESOURCE_CHANGED (payload (changed_event rm resource delta src))
       ''ResourceManager'' q"

definition depleted_event :: "Resource \<Rightarrow> string \<Rightarrow> Event" where
  "depleted_event resource src =
     \<lparr>etype = RESOURCE_DEPLETED,
      payload = [(''resource'', VStr (Resource_name resource)), (''source'', VStr src)],
      timing = IMMEDIATE, source = ''ResourceManager''\<rparr>"

definition set_current :: "ResourceManager \<Rightarrow> Resource \<Rightarrow> real \<Rightarrow> ResourceManager" where
  "set_current rm resource v =
     rm\<lparr>slots := (slots rm)(resource := (slots rm resource)\<lparr>current := v\<rparr>)\<rparr>"

definition consume ::
  "Resource \<Rightarrow> real \<Rightarrow> string \<Rightarrow> ResourceManager \<times> EventQueue
     \<Rightarrow> (error + bool) \<times> ResourceManager \<times> EventQueue" where
  "consume resource amount src st =
     (case st of (rm, q) \<Rightarrow>
        if amount < 0 then (Inl ValueError, rm, q)
        else if current (slots rm resource) < amount then (Inr False, rm, q)
        else
          let rm1 = set_current rm resource (current (slots rm resource) - amount);
              q1 = post_changed rm1 resource (- amount) src q;
              q2 = (if is_depleted (slots rm1 resource)
                    then post_immediate RESOURCE_DEPLETED
                           (payload (depleted_event resource src)) ''ResourceManager'' q1
                    else q1)
          in (Inr True, rm1, q2))"

definition restore ::
  "Resource \<Rightarrow> real \<Rightarrow> string \<Rightarrow> ResourceManager \<times> EventQueue
     \<Rightarrow> (error + unit) \<times> ResourceManager \<times> EventQueue" where
  "restore resource amount src st =
     (case st of (rm, q) \<Rightarrow>
        if amount < 0 then (Inl ValueError, rm, q)
        else
          let actual_gain = min amount (maximum (slots rm resource) - current (slots rm resource));
              rm1 = set_current rm resource (current (slots rm resource) + actual_gain);
              q1 = (if actual_gain > 0 then post_changed rm1 resource actual_gain src q else q)
          in (Inr (), rm1, q1))"

definition set_maximum ::
  "Resource \<Rightarrow> real \<Rightarrow> ResourceManager \<times> EventQueue
     \<Rightarrow> (error + unit) \<times> ResourceManager \<times> EventQueue" where
  "set_maximum resource new_max st =
     (case st of (rm, q) \<Rightarrow>
        if new_max \<le> 0 then (Inl ValueError, rm, q)
        else
          let rm1 = rm\<lparr>slots := (slots rm)(resource :=
                      \<lparr>current = min (current (slots rm resource)) new_max,
                       maximum = new_max\<rparr>)\<rparr>
          in (Inr (), rm1, post_changed rm1 resource 0 ''Upgrade'' q))"

section \<open>world/node.py\<close>

datatype NodeType = DIRECTORY | FILE | DEBRIS

datatype NodeVisibility = HIDDEN | DETECTED | REVEALED

fun NodeVisibility_name :: "NodeVisibility \<Rightarrow> string" where
  "NodeVisibility_name HIDDEN = ''HIDDEN''"
| "NodeVisibility_name DETECTED = ''DETECTED''"
| "NodeVisibility_name REVEALED = ''REVEALED''"

text \<open>
  A node id is a string, the text of a \<open>uuid.uuid4()\<close>.  The record leaves the type of
  ids open, so that the generator, which never looks inside an id, can be run on any supply
  of ids; \<open>Node\<close> is the record at strings, as in the source.
\<close>

record 'i NodeOf =
  name :: string
  node_type :: NodeType
  node_id :: 'i
  parent_id :: "'i option"
  children_ids :: "'i list"
  corruption :: real
  visibility :: NodeVisibility
  artifact_id :: "string option"
  metadata :: "(string \<times> pyval) list"

type_synonym Node = "string NodeOf"

definition is_root :: "'i NodeOf \<Rightarrow> bool" where
  "is_root n = (parent_id n = None)"

definition is_directory :: "'i NodeOf \<Rightarrow> bool" where
  "is_directory n = (node_type n = DIRECTORY)"

definition is_file :: "'i NodeOf \<Rightarrow> bool" where
  "is_file n = (node_type n = FILE)"

definition is_debris :: "'i NodeOf \<Rightarrow> bool" where
  "is_debris n = (node_type n = DEBRIS)"

definition has_artifact :: "'i NodeOf \<Rightarrow> bool" where
  "has_artifact n = (artifact_id n \<noteq> None)"

definition add_child :: "'i \<Rightarrow> 'i NodeOf \<Rightarrow> error + 'i NodeOf" where
  "add_child child_id n =
     (if \<not> is_directory n then Inl ValueError
      else if child_id \<notin> set (children_ids n)
           then Inr (n\<lparr>children_ids := children_ids n @ [child_id]\<rparr>)
      else Inr n)"

definition apply_corruption :: "real \<Rightarrow> Node \<Rightarrow> Node" where
  "apply_corruption delta n = n\<lparr>corruption := max 0 (min 1 (corruption n + delta))\<rparr>"

section \<open>systems/filesystem.py\<close>

definition CORRUPTION_TICK :: real where
  "CORRUPTION_TICK = 0.02"

definition CARVE_FAIL_THRESHOLD :: real where
  "CARVE_FAIL_THRESHOLD = 0.8"

record Filesystem =
  nodes :: "(string \<times> Node) list"
  root_id :: string
  cwd_id :: string

definition Filesystem_init :: "Node \<Rightarrow> (string \<times> Node) list \<Rightarrow> error + Filesystem" where
  "Filesystem_init rt ns =
     (if \<not> is_directory rt then Inl FilesystemError
      else Inr \<lparr>nodes = ns, root_id = node_id rt, cwd_id = node_id rt\<rparr>)"

definition fs_node :: "Filesystem \<Rightarrow> string \<Rightarrow> error + Node" where
  "fs_node fs nid = (case map_of (nodes fs) nid of None \<Rightarrow> Inl FilesystemError | Some n \<Rightarrow> Inr n)"

text \<open>
  \<open>_child_by_name\<close> returns a reference to the first matching child; the model returns
  the child together with the key under which the registry holds it, so that callers can
  write the mutated child back.
\<close>

fun child_by_name :: "(string \<times> Node) list \<Rightarrow> string \<Rightarrow> string list \<Rightarrow> (string \<times> Node) option" where
  "child_by_name ns nm [] = None"
| "child_by_name ns nm (cid # cids) =
     (case map_of ns cid of
        Some child \<Rightarrow> if name child = nm then Some (cid, child) else child_by_name ns nm cids
      | None \<Rightarrow> child_by_name ns nm cids)"

definition change_directory :: "string \<Rightarrow> Filesystem \<Rightarrow> (error + Node) \<times> Filesystem" where
  "change_directory nm fs =
     (case fs_node fs (cwd_id fs) of
        Inl e \<Rightarrow> (Inl e, fs)
      | Inr cwd \<Rightarrow>
          if nm = ''..'' then
            (case parent_id cwd of
               None \<Rightarrow> (Inl FilesystemError, fs)
             | Some pid \<Rightarrow>
                 (case fs_node fs pid of
                    Inl e \<Rightarrow> (Inl e, fs)
                  | Inr target \<Rightarrow> (Inr target, fs\<lparr>cwd_id := node_id target\<rparr>)))
          else
            (case child_by_name (nodes fs) nm (children_ids cwd) of
               None \<Rightarrow> (Inl FilesystemError, fs)
             | Some (cid, target) \<Rightarrow>
                 if visibility target = HIDDEN then (Inl FilesystemError, fs)
                 else if \<not> is_directory target then (Inl FilesystemError, fs)
                 else (Inr target, fs\<lparr>cwd_id := node_id target\<rparr>)))"

definition revealed_event :: "Node \<Rightarrow> Event" where
  "revealed_event target =
     \<lparr>etype = NODE_REVEALED,
      payload = [(''node_id'', VStr (node_id target)), (''name'', VStr (name target)),
                 (''visibility'', VStr (NodeVisibility_name (visibility target)))],
      timing = IMMEDIATE, source = ''Filesystem''\<rparr>"

definition artifact_found_event :: "Node \<Rightarrow> Event" where
  "artifact_found_event target =
     \<lparr>etype = ARTIFACT_FOUND,
      payload = [(''node_id'', VStr (node_id target)),
                 (''artifact_id'', (case artifact_id target of None \<Rightarrow> VNone | Some a \<Rightarrow> VStr a)),
                 (''name'', VStr (name target))],
      timing = IMMEDIATE, source = ''Filesystem''\<rparr>"

definition scan_complete_event :: "Node \<Rightarrow> Event" where
  "scan_complete_event target =
     \<lparr>etype = SCAN_COMPLETE,
      payload = [(''node_id'', VStr (node_id target)), (''name'', VStr (name target)),
                 (''success'', VBool True)],
      timing = IMMEDIATE, source = ''Filesystem''\<rparr>"

definition scan ::
  "string \<Rightarrow> Filesystem \<times> EventQueue \<Rightarrow> (error + Node) \<times> Filesystem \<times> EventQueue" where
  "scan nm st =
     (case st of (fs, q) \<Rightarrow>
        case fs_node fs (cwd_id fs) of
          Inl e \<Rightarrow> (Inl e, fs, q)
        | Inr cwd \<Rightarrow>
            (case child_by_name (nodes fs) nm (children_ids cwd) of
               None \<Rightarrow> (Inl FilesystemError, fs, q)
             | Some (cid, target) \<Rightarrow>
                 let previous = visibility target;
                     target1 = (if visibility target = HIDDEN
                                  then target\<lparr>visibility := DETECTED\<rparr>
                                else if visibility target = DETECTED
                                  then target\<lparr>visibility := REVEALED\<rparr>
                                else target);
                     q1 = (if visibility target1 \<noteq> previous
                           then post_immediate NODE_REVEALED (payload (revealed_event target1))
                                  ''Filesystem'' q
                           else q);
                     q2 = (if visibility target1 = REVEALED \<and> is_file target1
                              \<and> has_artifact target1
                           then post_immediate ARTIFACT_FOUND
                                  (payload (artifact_found_event target1)) ''Filesystem'' q1
                           else q1);
                     q3 = post_immediate SCAN_COMPLETE (payload (scan_complete_event target1))
                            ''Filesystem'' q2
                 in (Inr target1, fs\<lparr>nodes := AList.update cid target1 (nodes fs)\<rparr>, q3)))"

definition corrupted_event :: "Node \<Rightarrow> real \<Rightarrow> Event" where
  "corrupted_event n t =
     \<lparr>etype = NODE_CORRUPTED,
      payload = [(''node_id'', VStr (node_id n)), (''name'', VStr (name n)),
                 (''corruption'', VFloat (corruption n)), (''threshold'', VFloat t)],
      timing = IMMEDIATE, source = ''Filesystem''\<rparr>"

definition thresholds :: "real list" where
  "thresholds = [0.25, 0.50, 0.75, 1.0]"

text \<open>The inner loop of \<open>tick\<close>: post for the first threshold crossed, then \<open>break\<close>.\<close>

fun post_crossed :: "real list \<Rightarrow> real \<Rightarrow> Node \<Rightarrow> EventQueue \<Rightarrow> EventQueue" where
  "post_crossed [] before n q = q"
| "post_crossed (t # ts) before n q =
     (if before < t \<and> t \<le> corruption n
      then post_immediate NODE_CORRUPTED (payload (corrupted_event n t)) ''Filesystem'' q
      else post_crossed ts before n q)"

text \<open>The outer loop of \<open>tick\<close>, over the registry's values in insertion order.\<close>

fun tick_nodes :: "(string \<times> Node) list \<Rightarrow> EventQueue \<Rightarrow> (string \<times> Node) list \<times> EventQueue" where
  "tick_nodes [] q = ([], q)"
| "tick_nodes ((k, n) # rest) q =
     (if visibility n = HIDDEN then
        (case tick_nodes rest q of (rest', q') \<Rightarrow> ((k, n) # rest', q'))
      else
        let before = corruption n;
            n' = apply_corruption CORRUPTION_TICK n;
            q1 = post_crossed thresholds before n' q
        in (case tick_nodes rest q1 of (rest', q') \<Rightarrow> ((k, n') # rest', q')))"

definition tick :: "Filesystem \<times> EventQueue \<Rightarrow> Filesystem \<times> EventQueue" where
  "tick st = (case st of (fs, q) \<Rightarrow>
     case tick_nodes (nodes fs) q of (ns', q') \<Rightarrow> (fs\<lparr>nodes := ns'\<rparr>, q'))"

section \<open>systems/artifact.py\<close>

datatype ArtifactState = UNDISCOVERED | FOUND | COLLECTED | SOLD

datatype ArtifactRarity = COMMON | UNCOMMON | RARE | LEGENDARY

fun value_multiplier :: "ArtifactRarity \<Rightarrow> real" where
  "value_multiplier COMMON = 1.0"
| "value_multiplier UNCOMMON = 2.5"
| "value_multiplier RARE = 6.0"
| "value_multiplier LEGENDARY = 15.0"

text \<open>
  The fields \<open>artifact_id\<close>, \<open>name\<close>, \<open>node_id\<close> and \<open>metadata\<close> of the source's
  \<open>Artifact\<close> carry the prefix \<open>art_\<close> here, since \<open>Node\<close> has fields of the same names.
  \<open>MEMORY_COST\<close> is a field that the constructor always sets to 10.0 and nothing assigns.
\<close>

record Artifact =
  art_id :: string
  art_name :: string
  description :: string
  art_node_id :: string
  rarity :: ArtifactRarity
  state :: ArtifactState
  condition :: real
  sell_value :: real
  art_metadata :: "(string \<times> pyval) list"

definition MEMORY_COST :: real where
  "MEMORY_COST = 10.0"

definition BASE_VALUE :: real where
  "BASE_VALUE = 50.0"

record ArtifactSystem =
  artifacts :: "(string \<times> Artifact) list"
  currency :: real

text \<open>Python's \<open>round\<close>: to the nearest, a tie to the even neighbour.\<close>

definition round_half_even :: "real \<Rightarrow> int" where
  "round_half_even x =
     (let f = \<lfloor>x\<rfloor>; d = x - of_int f
      in if d < 1 / 2 then f else if 1 / 2 < d then f + 1
         else if even f then f else f + 1)"

definition py_round1 :: "real \<Rightarrow> real" where
  "py_round1 x = of_int (round_half_even (x * 10)) / 10"

definition compute_value :: "Artifact \<Rightarrow> real" where
  "compute_value artifact =
     py_round1 (BASE_VALUE * value_multiplier (rarity artifact) * condition artifact)"

definition register :: "Artifact \<Rightarrow> ArtifactSystem \<Rightarrow> ArtifactSystem" where
  "register artifact sys =
     (if map_of (artifacts sys) (art_id artifact) \<noteq> None then sys
      else sys\<lparr>artifacts := AList.update (art_id artifact) artifact (artifacts sys)\<rparr>)"

definition mark_found :: "string \<Rightarrow> ArtifactSystem \<Rightarrow> Artifact option \<times> ArtifactSystem" where
  "mark_found aid sys =
     (case map_of (artifacts sys) aid of
        None \<Rightarrow> (None, sys)
      | Some artifact \<Rightarrow>
          if state artifact \<noteq> UNDISCOVERED then (Some artifact, sys)
          else (Some (artifact\<lparr>state := FOUND\<rparr>),
                sys\<lparr>artifacts := AList.update aid (artifact\<lparr>state := FOUND\<rparr>) (artifacts sys)\<rparr>))"

definition reconstruct_failed_event :: "string \<Rightarrow> Event" where
  "reconstruct_failed_event aid =
     \<lparr>etype = RECONSTRUCT_END,
      payload = [(''artifact_id'', VStr aid), (''success'', VBool False),
                 (''reason'', VStr ''insufficient_memory'')],
      timing = IMMEDIATE, source = ''ArtifactSystem''\<rparr>"

definition reconstruct_ok_event :: "string \<Rightarrow> Artifact \<Rightarrow> Event" where
  "reconstruct_ok_event aid artifact =
     \<lparr>etype = RECONSTRUCT_END,
      payload = [(''artifact_id'', VStr aid), (''success'', VBool True),
                 (''condition'', VFloat (condition artifact)),
                 (''sell_value'', VFloat (sell_value artifact)),
                 (''name'', VStr (art_name artifact))],
      timing = IMMEDIATE, source = ''ArtifactSystem''\<rparr>"

definition collect ::
  "string \<Rightarrow> real \<Rightarrow> ArtifactSystem \<times> ResourceManager \<times> EventQueue
     \<Rightarrow> (error + bool) \<times> ArtifactSystem \<times> ResourceManager \<times> EventQueue" where
  "collect aid node_corruption st =
     (case st of (sys, rm, q) \<Rightarrow>
        case map_of (artifacts sys) aid of
          None \<Rightarrow> (Inr False, sys, rm, q)
        | Some artifact \<Rightarrow>
            if state artifact \<noteq> FOUND then (Inr False, sys, rm, q)
            else
              (case consume MEMORY MEMORY_COST ''ArtifactSystem'' (rm, q) of
                 (Inl e, rm1, q1) \<Rightarrow> (Inl e, sys, rm1, q1)
               | (Inr False, rm1, q1) \<Rightarrow>
                   (Inr False, sys, rm1,
                    post_immediate RECONSTRUCT_END (payload (reconstruct_failed_event aid))
                      ''ArtifactSystem'' q1)
               | (Inr True, rm1, q1) \<Rightarrow>
                   let a1 = artifact\<lparr>condition := max 0.01 (1.0 - node_corruption)\<rparr>;
                       a2 = a1\<lparr>sell_value := compute_value a1\<rparr>;
                       a3 = a2\<lparr>state := COLLECTED\<rparr>
                   in (Inr True, sys\<lparr>artifacts := AList.update aid a3 (artifacts sys)\<rparr>, rm1,
                       post_immediate RECONSTRUCT_END (payload (reconstruct_ok_event aid a3))
                         ''ArtifactSystem'' q1)))"

definition sale_event :: "string \<Rightarrow> Artifact \<Rightarrow> real \<Rightarrow> Event" where
  "sale_event aid artifact earned =
     \<lparr>etype = LOG_ENTRY_ADDED,
      payload = [(''artifact_id'', VStr aid), (''name'', VStr (art_name artifact)),
                 (''earned'', VFloat earned), (''description'', VStr (description artifact))],
      timing = IMMEDIATE, source = ''ArtifactSystem''\<rparr>"

definition sell ::
  "string \<Rightarrow> ArtifactSystem \<times> ResourceManager \<times> EventQueue
     \<Rightarrow> (error + real) \<times> ArtifactSystem \<times> ResourceManager \<times> EventQueue" where
  "sell aid st =
     (case st of (sys, rm, q) \<Rightarrow>
        case map_of (artifacts sys) aid of
          None \<Rightarrow> (Inr 0.0, sys, rm, q)
        | Some artifact \<Rightarrow>
            if state artifact \<noteq> COLLECTED then (Inr 0.0, sys, rm, q)
            else
              let earned = sell_value artifact;
                  a1 = artifact\<lparr>state := SOLD, sell_value := 0.0\<rparr>;
                  sys1 = sys\<lparr>artifacts := AList.update aid a1 (artifacts sys),
                             currency := currency sys + earned\<rparr>
              in (case restore MEMORY MEMORY_COST ''ArtifactSystem'' (rm, q) of
                    (Inl e, rm1, q1) \<Rightarrow> (Inl e, sys1, rm1, q1)
                  | (Inr u, rm1, q1) \<Rightarrow>
                      (Inr earned, sys1, rm1,
                       post_immediate LOG_ENTRY_ADDED (payload (sale_event aid a1 earned))
                         ''ArtifactSystem'' q1)))"

definition ex_relic :: Artifact where
  "ex_relic = \<lparr>art_id = ''arc_corporate_0000'', art_name = ''Quarterly ledger'',
     description = ''A ledger.'', art_node_id = ''b'', rarity = UNCOMMON, state = FOUND,
     condition = 1.0, sell_value = 0.0, art_metadata = []\<rparr>"

definition ex_arts :: ArtifactSystem where
  "ex_arts = \<lparr>artifacts = [(''arc_corporate_0000'', ex_relic)], currency = 0.0\<rparr>"

definition ex_rm :: ResourceManager where
  "ex_rm = ResourceManager_init 100 50 80 1"

definition ex_held :: ArtifactSystem where
  "ex_held = \<lparr>artifacts = [(''arc_corporate_0000'',
       ex_relic\<lparr>state := COLLECTED, condition := 0.9, sell_value := 112.5\<rparr>)],
     currency = 7.0\<rparr>"

section \<open>systems/daemon.py\<close>

text \<open>
  The fields \<open>name\<close> and \<open>node_id\<close> of the source's \<open>Daemon\<close> carry the prefix \<open>d_\<close>.
  The thresholds are fields that the constructor always sets and nothing assigns.  The
  system keeps references to the shared resource manager and node registry; the record
  holds them as \<open>ds_rm\<close> and \<open>ds_nodes\<close>.  \<open>random.Random.choice\<close> is a parameter.
\<close>

datatype DaemonPersonality = AGGRESSIVE | PARANOID | SLEEPY

datatype AlertState = IDLE | SUSPICIOUS | ALERT

record Daemon =
  d_name :: string
  personality :: DaemonPersonality
  d_node_id :: string
  detection_radius :: int
  alert_state :: AlertState
  alert_level :: real
  move_cooldown :: int
  turns_since_move :: int
  pacified :: bool
  daemon_id :: string

definition neighbours :: "(string \<times> Node) list \<Rightarrow> string \<Rightarrow> string list" where
  "neighbours ns nid =
     (case map_of ns nid of
        None \<Rightarrow> []
      | Some node \<Rightarrow>
          let adjacent = children_ids node
                @ (case parent_id node of None \<Rightarrow> [] | Some p \<Rightarrow> if p \<noteq> [] then [p] else [])
          in filter (\<lambda>n. map_of ns n \<noteq> None) adjacent)"

text \<open>
  \<open>_distance\<close> is a breadth-first search.  \<open>visit_neighbours\<close> is its inner \<open>for\<close> loop
  over the neighbours of the node taken from the queue: it returns \<open>Inl\<close> of the hop count
  when it meets the target, and otherwise the visited set and the queue as the loop leaves
  them.  \<open>bfs\<close> is the \<open>while queue\<close> loop; it ends because every pass takes one
  entry from the queue and every entry added marks a node of the registry as visited.
\<close>

fun visit_neighbours ::
  "string \<Rightarrow> int \<Rightarrow> string list \<Rightarrow> string list \<Rightarrow> (string \<times> int) list
     \<Rightarrow> int + (string list \<times> (string \<times> int) list)" where
  "visit_neighbours to_id hops [] visited queue = Inr (visited, queue)"
| "visit_neighbours to_id hops (nid # rest) visited queue =
     (if nid = to_id then Inl (hops + 1)
      else if nid \<notin> set visited
        then visit_neighbours to_id hops rest (nid # visited) (queue @ [(nid, hops + 1)])
      else visit_neighbours to_id hops rest visited queue)"

lemma visit_neighbours_measure:
  "visit_neighbours to_id hops nbs visited queue = Inr (visited', queue') \<Longrightarrow>
   set nbs \<subseteq> K \<Longrightarrow> finite K \<Longrightarrow>
   card (K - set visited') + length queue' = card (K - set visited) + length queue"
proof (induction nbs arbitrary: visited queue)
  case Nil
  then show ?case by simp
next
  case (Cons nid rest)
  show ?case
  proof (cases "nid \<in> set visited")
    case True
    with Cons show ?thesis by (simp split: if_splits)
  next
    case False
    from Cons.prems have ne: "nid \<noteq> to_id" by (auto split: if_splits)
    with Cons.prems False have
      "visit_neighbours to_id hops rest (nid # visited) (queue @ [(nid, hops + 1)])
         = Inr (visited', queue')" by simp
    from Cons.IH [OF this] Cons.prems have
      "card (K - set visited') + length queue'
         = card (K - set (nid # visited)) + length (queue @ [(nid, hops + 1)])" by simp
    moreover have "nid \<in> K - set visited" using Cons.prems False by simp
    then have "card (K - set (nid # visited)) + 1 = card (K - set visited)"
      using \<open>finite K\<close>
      by (metis Diff_insert One_nat_def Suc_pred add.right_neutral add_Suc_right
          card_Diff_singleton card_gt_0_iff empty_iff finite_Diff list.simps(15))
    ultimately show ?thesis by simp
  qed
qed

lemma neighbours_subset: "set (neighbours ns nid) \<subseteq> fst ` set ns"
  by (auto simp: neighbours_def Let_def map_of_eq_None_iff split: option.splits)

function bfs ::
  "(string \<times> Node) list \<Rightarrow> string \<Rightarrow> string list \<Rightarrow> (string \<times> int) list \<Rightarrow> int" where
  "bfs ns to_id visited [] = 999"
| "bfs ns to_id visited ((current_id, hops) # queue) =
     (case visit_neighbours to_id hops (neighbours ns current_id) visited queue of
        Inl d \<Rightarrow> d
      | Inr (visited', queue') \<Rightarrow> bfs ns to_id visited' queue')"
  by pat_completeness auto
termination
proof (relation "measure (\<lambda>(ns, to_id, visited, queue).
         card (fst ` set ns - set visited) + length queue)", goal_cases)
  case 1
  show ?case by simp
next
  case (2 ns to_id visited current_id hops queue x2 x y)
  then have "visit_neighbours to_id hops (neighbours ns current_id) visited queue = Inr (x, y)"
    by simp
  from visit_neighbours_measure [OF this neighbours_subset] show ?case by simp
qed

definition distance :: "(string \<times> Node) list \<Rightarrow> string \<Rightarrow> string \<Rightarrow> int" where
  "distance ns from_id to_id =
     (if from_id = to_id then 0 else bfs ns to_id [from_id] [(from_id, 0)])"

definition SUSPICIOUS_THRESHOLD :: real where
  "SUSPICIOUS_THRESHOLD = 0.4"

definition ALERT_THRESHOLD :: real where
  "ALERT_THRESHOLD = 0.75"

definition ALERT_GAIN_NEAR :: real where
  "ALERT_GAIN_NEAR = 0.2"

definition ALERT_GAIN_NOISE :: real where
  "ALERT_GAIN_NOISE = 0.1"

definition ALERT_DECAY :: real where
  "ALERT_DECAY = 0.05"

definition CONTACT_DRAIN :: real where
  "CONTACT_DRAIN = 10.0"

definition DAEMON_CORRUPTION :: real where
  "DAEMON_CORRUPTION = 0.05"

record 'r DaemonSystem =
  ds_rm :: ResourceManager
  ds_nodes :: "(string \<times> Node) list"
  daemons :: "(string \<times> Daemon) list"
  rng :: 'r

definition daemon_event :: "EventType \<Rightarrow> Daemon \<Rightarrow> Event" where
  "daemon_event t daemon =
     \<lparr>etype = t,
      payload = [(''daemon_id'', VStr (daemon_id daemon)), (''name'', VStr (d_name daemon)),
                 (''node_id'', VStr (d_node_id daemon))],
      timing = IMMEDIATE, source = ''DaemonSystem''\<rparr>"

definition post_alert_event :: "Daemon \<Rightarrow> AlertState \<Rightarrow> EventQueue \<Rightarrow> EventQueue" where
  "post_alert_event daemon previous q =
     (if alert_state daemon = SUSPICIOUS \<and> previous = IDLE
        then post_immediate DAEMON_SPOTTED (payload (daemon_event DAEMON_SPOTTED daemon))
               ''DaemonSystem'' q
      else if alert_state daemon = ALERT
        then post_immediate DAEMON_ALERT (payload (daemon_event DAEMON_ALERT daemon))
               ''DaemonSystem'' q
      else q)"

text \<open>The \<open>if\<close>/\<open>elif\<close>/\<open>else\<close> chain of \<open>_update_alert\<close> that chooses the gain.\<close>

definition alert_gain ::
  "(string \<times> Node) list \<Rightarrow> string \<Rightarrow> string option \<Rightarrow> Daemon \<Rightarrow> real" where
  "alert_gain ns player_node_id noise_node_id daemon =
     (if distance ns (d_node_id daemon) player_node_id \<le> detection_radius daemon then
        (if personality daemon = PARANOID then ALERT_GAIN_NEAR * 1.5 else ALERT_GAIN_NEAR)
      else if (case noise_node_id of
                 None \<Rightarrow> False
               | Some nz \<Rightarrow> nz \<noteq> [] \<and>
                   distance ns (d_node_id daemon) nz \<le> detection_radius daemon + 1)
        then ALERT_GAIN_NOISE
      else
        (if personality daemon = SLEEPY then - ALERT_DECAY * 2.0 else - ALERT_DECAY))"

definition update_alert ::
  "(string \<times> Node) list \<Rightarrow> string \<Rightarrow> string option \<Rightarrow> Daemon \<Rightarrow> EventQueue
     \<Rightarrow> Daemon \<times> EventQueue" where
  "update_alert ns player_node_id noise_node_id daemon q =
     (let gain = alert_gain ns player_node_id noise_node_id daemon;
          previous_state = alert_state daemon;
          d1 = daemon\<lparr>alert_level := max 0 (min 1 (alert_level daemon + gain))\<rparr>;
          d2 = (if alert_level d1 \<ge> ALERT_THRESHOLD then d1\<lparr>alert_state := ALERT\<rparr>
                else if alert_level d1 \<ge> SUSPICIOUS_THRESHOLD then d1\<lparr>alert_state := SUSPICIOUS\<rparr>
                else d1\<lparr>alert_state := IDLE\<rparr>)
      in (d2, if alert_state d2 \<noteq> previous_state then post_alert_event d2 previous_state q
              else q))"

text \<open>Python's \<open>min(seq, key=f)\<close> on a non-empty sequence: the first element of least key.\<close>

fun min_by :: "('a \<Rightarrow> int) \<Rightarrow> 'a \<Rightarrow> 'a list \<Rightarrow> 'a" where
  "min_by f best [] = best"
| "min_by f best (x # xs) = min_by f (if f x < f best then x else best) xs"

definition maybe_move ::
  "('r \<Rightarrow> string list \<Rightarrow> string \<times> 'r) \<Rightarrow> (string \<times> Node) list \<Rightarrow> string \<Rightarrow> Daemon \<Rightarrow> 'r
     \<Rightarrow> Daemon \<times> 'r" where
  "maybe_move choice ns player_node_id daemon g =
     (let d1 = daemon\<lparr>turns_since_move := turns_since_move daemon + 1\<rparr>
      in if turns_since_move d1 < move_cooldown d1 then (d1, g)
         else
           let d2 = d1\<lparr>turns_since_move := 0\<rparr>
           in (case neighbours ns (d_node_id d2) of
                 [] \<Rightarrow> (d2, g)
               | n # rest \<Rightarrow>
                   if alert_state d2 = ALERT
                      \<and> (personality d2 = AGGRESSIVE \<or> personality d2 = PARANOID)
                   then (d2\<lparr>d_node_id := min_by (\<lambda>nid. distance ns nid player_node_id) n rest\<rparr>, g)
                   else (case choice g (n # rest) of
                           (target_id, g') \<Rightarrow> (d2\<lparr>d_node_id := target_id\<rparr>, g'))))"

text \<open>
  \<open>_apply_contact_effects\<close> only logs the outcome of \<open>consume\<close>; the amount is the constant
  10, so \<open>consume\<close> does not raise.
\<close>

definition apply_contact_effects ::
  "string \<Rightarrow> Daemon \<Rightarrow> ResourceManager \<times> EventQueue \<Rightarrow> ResourceManager \<times> EventQueue" where
  "apply_contact_effects player_node_id daemon st =
     (if d_node_id daemon \<noteq> player_node_id then st
      else snd (consume POWER CONTACT_DRAIN (d_name daemon) st))"

definition corrupt_current_node :: "Daemon \<Rightarrow> (string \<times> Node) list \<Rightarrow> (string \<times> Node) list" where
  "corrupt_current_node daemon ns =
     (case map_of ns (d_node_id daemon) of
        None \<Rightarrow> ns
      | Some node \<Rightarrow> AList.update (d_node_id daemon) (apply_corruption DAEMON_CORRUPTION node) ns)"

text \<open>
  \<open>tick\<close> walks a snapshot of the daemons in registry order; each daemon object is mutated
  in place, so the new registry holds the updated daemons under the same keys.
\<close>

fun tick_daemons ::
  "('r \<Rightarrow> string list \<Rightarrow> string \<times> 'r) \<Rightarrow> string \<Rightarrow> string option \<Rightarrow> (string \<times> Daemon) list
     \<Rightarrow> 'r DaemonSystem \<times> EventQueue \<Rightarrow> (string \<times> Daemon) list \<times> 'r DaemonSystem \<times> EventQueue"
  where
  "tick_daemons choice player_node_id noise_node_id [] st = ([], st)"
| "tick_daemons choice player_node_id noise_node_id ((k, daemon) # rest) st =
     (if pacified daemon then
        (case tick_daemons choice player_node_id noise_node_id rest st of
           (rest', st') \<Rightarrow> ((k, daemon) # rest', st'))
      else
        (case st of (sys, q) \<Rightarrow>
           case update_alert (ds_nodes sys) player_node_id noise_node_id daemon q of
             (d1, q1) \<Rightarrow>
               (case maybe_move choice (ds_nodes sys) player_node_id d1 (rng sys) of
                  (d2, g) \<Rightarrow>
                    (case apply_contact_effects player_node_id d2 (ds_rm sys, q1) of
                       (rm1, q2) \<Rightarrow>
                         (case tick_daemons choice player_node_id noise_node_id rest
                                 (sys\<lparr>ds_rm := rm1,
                                      ds_nodes := corrupt_current_node d2 (ds_nodes sys),
                                      rng := g\<rparr>, q2) of
                            (rest', st') \<Rightarrow> ((k, d2) # rest', st'))))))"

definition daemon_tick ::
  "('r \<Rightarrow> string list \<Rightarrow> string \<times> 'r) \<Rightarrow> string \<Rightarrow> string option
     \<Rightarrow> 'r DaemonSystem \<times> EventQueue \<Rightarrow> 'r DaemonSystem \<times> EventQueue" where
  "daemon_tick choice player_node_id noise_node_id st =
     (case tick_daemons choice player_node_id noise_node_id (daemons (fst st)) st of
        (ds', sys', q') \<Rightarrow> (sys'\<lparr>daemons := ds'\<rparr>, q'))"

text \<open>What the invariant of the alert fields says of one daemon.\<close>

definition alert_ok :: "Daemon \<Rightarrow> bool" where
  "alert_ok d = (0 \<le> alert_level d \<and> alert_level d \<le> 1
     \<and> alert_state d = (if alert_level d \<ge> 0.75 then ALERT
                          else if alert_level d \<ge> 0.4 then SUSPICIOUS else IDLE))"

section \<open>world/site\_generator.py\<close>

text \<open>
  The generator draws from two sources.  The first is \<open>random.Random(seed)\<close>, a
  deterministic generator: its state is a value of a type \<open>'g\<close>, and the methods that the
  source calls (\<open>gauss\<close>, \<open>shuffle\<close>, \<open>random\<close>, \<open>uniform\<close>) are functions from a state to a
  result and the next state, collected in the record \<open>Random\<close>, a parameter of the model.
  The second is \<open>uuid.uuid4()\<close>, which \<open>Node\<close> calls for the id of each new node and which
  no seed controls: \<open>ids k\<close> is the id that the \<open>k\<close>-th constructed node receives.  The
  operating system's generator makes these ids distinct; the model follows the source
  where \<open>ids\<close> is injective.

  A \<open>for i in range(n)\<close> loop is a recursion over the list \<open>[0 ..< n]\<close>.  A node object
  that a loop holds and mutates (\<open>parent\<close>, \<open>leaf\<close>) is passed along as a value and written
  back to the registry under its id after each mutation.
\<close>

record SiteProfile =
  site_name :: string
  seed :: int
  max_depth :: int
  branch_factor :: real
  files_per_dir :: real
  debris_ratio :: real
  artifact_density :: real
  base_corruption :: real
  theme :: string
  dir_names :: "string list"
  file_names :: "string list"
  debris_names :: "string list"

record 'g Random =
  rng_new :: "int \<Rightarrow> 'g"
  rng_gauss :: "real \<Rightarrow> real \<Rightarrow> 'g \<Rightarrow> real \<times> 'g"
  rng_shuffle :: "string list \<Rightarrow> 'g \<Rightarrow> string list \<times> 'g"
  rng_random :: "'g \<Rightarrow> real \<times> 'g"
  rng_uniform :: "real \<Rightarrow> real \<Rightarrow> 'g \<Rightarrow> real \<times> 'g"

record ('i, 'g) Gen =
  g_nodes :: "('i \<times> 'i NodeOf) list"
  g_rng :: 'g
  g_next :: nat

fun str_nat :: "nat \<Rightarrow> string" where
  "str_nat n = (if n < 10 then [''0123456789'' ! n]
                else str_nat (n div 10) @ [''0123456789'' ! (n mod 10)])"

declare str_nat.simps [simp del]

definition zero_pad4 :: "string \<Rightarrow> string" where
  "zero_pad4 s = replicate (4 - length s) (CHR ''0'') @ s"

definition make_node ::
  "'g Random \<Rightarrow> (nat \<Rightarrow> 'i) \<Rightarrow> SiteProfile \<Rightarrow> string \<Rightarrow> NodeType \<Rightarrow> 'i option \<Rightarrow> ('i, 'g) Gen
     \<Rightarrow> 'i NodeOf \<times> ('i, 'g) Gen" where
  "make_node R ids profile nm ntype pid st =
     (case rng_uniform R (- 0.03) 0.03 (g_rng st) of
        (u, g1) \<Rightarrow>
          (\<lparr>name = nm, node_type = ntype, node_id = ids (g_next st), parent_id = pid,
            children_ids = [],
            corruption = max 0 (min 0.99 (base_corruption profile + u)),
            visibility = (if ntype = DIRECTORY then DETECTED else HIDDEN),
            artifact_id = None,
            metadata = [(''theme'', VStr (theme profile)), (''site'', VStr (site_name profile))]\<rparr>,
           st\<lparr>g_rng := g1, g_next := Suc (g_next st)\<rparr>))"

definition lookup_child_name ::
  "string \<Rightarrow> 'i NodeOf \<Rightarrow> ('i \<times> 'i NodeOf) list \<Rightarrow> bool list" where
  "lookup_child_name nm parent ns =
     map (\<lambda>cid. True)
       (filter (\<lambda>cid. case map_of ns cid of None \<Rightarrow> False | Some c \<Rightarrow> name c = nm)
          (children_ids parent))"

definition py_any :: "bool list \<Rightarrow> bool" where
  "py_any bs = (True \<in> set bs)"

function build_tree ::
    "'g Random \<Rightarrow> (nat \<Rightarrow> 'i) \<Rightarrow> SiteProfile \<Rightarrow> 'i NodeOf \<Rightarrow> int \<Rightarrow> ('i, 'g) Gen
       \<Rightarrow> error + ('i, 'g) Gen"
  and build_branches ::
    "'g Random \<Rightarrow> (nat \<Rightarrow> 'i) \<Rightarrow> SiteProfile \<Rightarrow> 'i NodeOf \<Rightarrow> int \<Rightarrow> string list \<Rightarrow> nat list
       \<Rightarrow> ('i, 'g) Gen \<Rightarrow> error + ('i, 'g) Gen"
  where
  "build_tree R ids profile parent depth st =
     (if depth \<ge> max_depth profile then Inr st
      else
        case rng_gauss R (branch_factor profile) 0.8 (g_rng st) of
          (x, g1) \<Rightarrow>
            (case rng_shuffle R (dir_names profile) g1 of
               (name_pool, g2) \<Rightarrow>
                 build_branches R ids profile parent depth name_pool
                   [0 ..< nat (max 0 (round_half_even x))] (st\<lparr>g_rng := g2\<rparr>)))"
| "build_branches R ids profile parent depth name_pool [] st = Inr st"
| "build_branches R ids profile parent depth name_pool (i # rest) st =
     (if name_pool = [] then Inl ZeroDivisionError
      else
        let nm0 = name_pool ! (i mod length name_pool);
            nm = (if py_any (lookup_child_name nm0 parent (g_nodes st))
                  then nm0 @ ''_'' @ str_nat i else nm0)
        in case make_node R ids profile nm DIRECTORY (Some (node_id parent)) st of
             (child, st1) \<Rightarrow>
               (case add_child (node_id child) parent of
                  Inl e \<Rightarrow> Inl e
                | Inr parent' \<Rightarrow>
                    (case build_tree R ids profile child (depth + 1)
                            (st1\<lparr>g_nodes := AList.update (node_id parent') parent'
                                   (AList.update (node_id child) child (g_nodes st1))\<rparr>) of
                       Inl e \<Rightarrow> Inl e
                     | Inr st2 \<Rightarrow>
                         build_branches R ids profile parent' depth name_pool rest st2)))"
  by pat_completeness auto
termination
  by (relation "measures
        [\<lambda>x. case x of
            Inl (R, ids, profile, parent, depth, st) \<Rightarrow> 2 * nat (max_depth profile - depth)
          | Inr (R, ids, profile, parent, depth, name_pool, is, st) \<Rightarrow>
              2 * nat (max_depth profile - (depth + 1)) + 1,
         \<lambda>x. case x of
            Inl (R, ids, profile, parent, depth, st) \<Rightarrow> 0
          | Inr (R, ids, profile, parent, depth, name_pool, is, st) \<Rightarrow> length is]")
    auto


declare build_tree.simps [simp del] build_branches.simps [simp del]

definition leaf_dirs :: "('i \<times> 'i NodeOf) list \<Rightarrow> 'i NodeOf list" where
  "leaf_dirs ns =
     filter (\<lambda>n. is_directory n
               \<and> \<not> py_any (map (\<lambda>cid. case map_of ns cid of None \<Rightarrow> False
                                                            | Some c \<Rightarrow> is_directory c)
                             (filter (\<lambda>cid. map_of ns cid \<noteq> None) (children_ids n))))
       (map snd ns)"

fun place_files ::
  "'g Random \<Rightarrow> (nat \<Rightarrow> 'i) \<Rightarrow> SiteProfile \<Rightarrow> real \<Rightarrow> string list \<Rightarrow> string list \<Rightarrow> 'i NodeOf
     \<Rightarrow> nat list \<Rightarrow> ('i, 'g) Gen \<Rightarrow> error + ('i, 'g) Gen" where
  "place_files R ids profile dratio file_pool debris_pool leaf [] st = Inr st"
| "place_files R ids profile dratio file_pool debris_pool leaf (i # rest) st =
     (case rng_random R (g_rng st) of
        (x, g1) \<Rightarrow>
          if (if x < dratio then debris_pool = [] else file_pool = []) then Inl ZeroDivisionError
          else
            let nm = (if x < dratio then debris_pool ! (i mod length debris_pool)
                      else file_pool ! (i mod length file_pool));
                ntype = (if x < dratio then DEBRIS else FILE)
            in case make_node R ids profile nm ntype (Some (node_id leaf)) (st\<lparr>g_rng := g1\<rparr>) of
                 (child, st1) \<Rightarrow>
                   (case add_child (node_id child) leaf of
                      Inl e \<Rightarrow> Inl e
                    | Inr leaf' \<Rightarrow>
                        place_files R ids profile dratio file_pool debris_pool leaf' rest
                          (st1\<lparr>g_nodes := AList.update (node_id leaf') leaf'
                                 (AList.update (node_id child) child (g_nodes st1))\<rparr>)))"

fun populate_leaves ::
  "'g Random \<Rightarrow> (nat \<Rightarrow> 'i) \<Rightarrow> SiteProfile \<Rightarrow> real \<Rightarrow> 'i NodeOf list \<Rightarrow> ('i, 'g) Gen
     \<Rightarrow> error + ('i, 'g) Gen" where
  "populate_leaves R ids profile dratio [] st = Inr st"
| "populate_leaves R ids profile dratio (leaf # rest) st =
     (case rng_gauss R (files_per_dir profile) 1.0 (g_rng st) of
        (x, g1) \<Rightarrow>
          (case rng_shuffle R (file_names profile) g1 of
             (file_pool, g2) \<Rightarrow>
               (case rng_shuffle R (debris_names profile) g2 of
                  (debris_pool, g3) \<Rightarrow>
                    (case place_files R ids profile dratio file_pool debris_pool leaf
                            [0 ..< nat (max 0 (round_half_even x))] (st\<lparr>g_rng := g3\<rparr>) of
                       Inl e \<Rightarrow> Inl e
                     | Inr st1 \<Rightarrow> populate_leaves R ids profile dratio rest st1))))"

definition populate ::
  "'g Random \<Rightarrow> (nat \<Rightarrow> 'i) \<Rightarrow> SiteProfile \<Rightarrow> ('i, 'g) Gen \<Rightarrow> error + ('i, 'g) Gen" where
  "populate R ids profile st =
     populate_leaves R ids profile (max 0 (min 1 (debris_ratio profile)))
       (leaf_dirs (g_nodes st)) st"

text \<open>
  \<open>_seed_artifacts\<close> first collects the FILE nodes in registry order and then enumerates
  them; \<open>seed_loop\<close> walks the registry once and counts the FILE nodes it passes, which
  visits the same nodes with the same ordinals.
\<close>

fun seed_loop ::
  "'g Random \<Rightarrow> SiteProfile \<Rightarrow> real \<Rightarrow> nat \<Rightarrow> ('i \<times> 'i NodeOf) list \<Rightarrow> 'g
     \<Rightarrow> ('i \<times> 'i NodeOf) list \<times> 'g" where
  "seed_loop R profile density i [] g = ([], g)"
| "seed_loop R profile density i ((k, n) # rest) g =
     (if is_file n then
        (case rng_random R g of
           (x, g1) \<Rightarrow>
             (case seed_loop R profile density (i + 1) rest g1 of
                (rest', g') \<Rightarrow>
                  ((k, if x < density
                       then n\<lparr>artifact_id := Some (''arc_'' @ theme profile @ ''_''
                                                    @ zero_pad4 (str_nat i)),
                              metadata := AList.update ''artifact'' (VBool True) (metadata n)\<rparr>
                       else n) # rest', g')))
      else
        (case seed_loop R profile density i rest g of
           (rest', g') \<Rightarrow> ((k, n) # rest', g')))"

definition seed_artifacts :: "'g Random \<Rightarrow> SiteProfile \<Rightarrow> ('i, 'g) Gen \<Rightarrow> ('i, 'g) Gen" where
  "seed_artifacts R profile st =
     (case seed_loop R profile (max 0 (min 1 (artifact_density profile))) 0 (g_nodes st)
             (g_rng st) of
        (ns, g) \<Rightarrow> st\<lparr>g_nodes := ns, g_rng := g\<rparr>)"

definition generate_nodes ::
  "'g Random \<Rightarrow> (nat \<Rightarrow> 'i) \<Rightarrow> SiteProfile \<Rightarrow> int option
     \<Rightarrow> error + ('i NodeOf \<times> ('i \<times> 'i NodeOf) list)" where
  "generate_nodes R ids profile seed_override =
     (let sd = (case seed_override of None \<Rightarrow> seed profile | Some s \<Rightarrow> s);
          st0 = \<lparr>g_nodes = [], g_rng = rng_new R sd, g_next = 0\<rparr>
      in case make_node R ids profile ''root'' DIRECTORY None st0 of
           (root0, st1) \<Rightarrow>
             let rt = root0\<lparr>visibility := REVEALED\<rparr>
             in (case build_tree R ids profile rt 0
                        (st1\<lparr>g_nodes := AList.update (node_id rt) rt (g_nodes st1)\<rparr>) of
                   Inl e \<Rightarrow> Inl e
                 | Inr st2 \<Rightarrow>
                     (case populate R ids profile st2 of
                        Inl e \<Rightarrow> Inl e
                      | Inr st3 \<Rightarrow> Inr (rt, g_nodes (seed_artifacts R profile st3)))))"

definition generate ::
  "'g Random \<Rightarrow> (nat \<Rightarrow> string) \<Rightarrow> SiteProfile \<Rightarrow> int option \<Rightarrow> error + Filesystem" where
  "generate R ids profile seed_override =
     (case generate_nodes R ids profile seed_override of
        Inl e \<Rightarrow> Inl e
      | Inr (rt, ns) \<Rightarrow> Filesystem_init rt ns)"

text \<open>
  Words of the specification: the structure of a generated tree (per node, in creation
  order: name, type, corruption, visibility, artifact id), and the renaming of the ids of a
  node, of a registry and of a generator state.
\<close>

definition site_structure ::
  "('i \<times> 'i NodeOf) list
     \<Rightarrow> (string \<times> NodeType \<times> real \<times> NodeVisibility \<times> string option) list" where
  "site_structure ns = map (\<lambda>(k, n). (name n, node_type n, corruption n, visibility n, artifact_id n)) ns"

definition ren :: "('i \<Rightarrow> 'j) \<Rightarrow> 'i NodeOf \<Rightarrow> 'j NodeOf" where
  "ren f n = \<lparr>name = name n, node_type = node_type n, node_id = f (node_id n),
     parent_id = map_option f (parent_id n), children_ids = map f (children_ids n),
     corruption = corruption n, visibility = visibility n, artifact_id = artifact_id n,
     metadata = metadata n\<rparr>"

definition ren_nodes :: "('i \<Rightarrow> 'j) \<Rightarrow> ('i \<times> 'i NodeOf) list \<Rightarrow> ('j \<times> 'j NodeOf) list" where
  "ren_nodes f ns = map (\<lambda>(k, n). (f k, ren f n)) ns"

definition ren_gen :: "('i \<Rightarrow> 'j) \<Rightarrow> ('i, 'g) Gen \<Rightarrow> ('j, 'g) Gen" where
  "ren_gen f st = \<lparr>g_nodes = ren_nodes f (g_nodes st), g_rng = g_rng st, g_next = g_next st\<rparr>"

section \<open>A small site used to exercise the operations\<close>

definition ex_root :: Node where
  "ex_root = \<lparr>name = ''root'', node_type = DIRECTORY, node_id = ''r'', parent_id = None,
     children_ids = [''a'', ''b'', ''c''], corruption = 0.1, visibility = REVEALED,
     artifact_id = None, metadata = []\<rparr>"

definition ex_logs :: Node where
  "ex_logs = \<lparr>name = ''logs'', node_type = DIRECTORY, node_id = ''a'', parent_id = Some ''r'',
     children_ids = [], corruption = 0.5, visibility = HIDDEN,
     artifact_id = None, metadata = []\<rparr>"

definition ex_readme :: Node where
  "ex_readme = \<lparr>name = ''readme.txt'', node_type = FILE, node_id = ''b'', parent_id = Some ''r'',
     children_ids = [], corruption = 0.99, visibility = REVEALED,
     artifact_id = Some ''arc_corporate_0000'', metadata = []\<rparr>"

definition ex_memo :: Node where
  "ex_memo = \<lparr>name = ''memo.doc'', node_type = FILE, node_id = ''c'', parent_id = Some ''r'',
     children_ids = [], corruption = 0.24, visibility = DETECTED,
     artifact_id = None, metadata = []\<rparr>"

definition ex_fs :: Filesystem where
  "ex_fs = \<lparr>nodes = [(''r'', ex_root), (''a'', ex_logs), (''b'', ex_readme), (''c'', ex_memo)],
     root_id = ''r'', cwd_id = ''r''\<rparr>"

text \<open>
  The same site with a fourth child of the root that bears the name of the second:
  \<open>_populate\<close> draws names as \<open>file_pool[i % len(file_pool)]\<close> and does not deduplicate them.
\<close>

definition ex_shadowed :: Node where
  "ex_shadowed = \<lparr>name = ''readme.txt'', node_type = FILE, node_id = ''d'', parent_id = Some ''r'',
     children_ids = [], corruption = 0.1, visibility = HIDDEN,
     artifact_id = Some ''arc_corporate_0001'', metadata = []\<rparr>"

definition ex_fs_twins :: Filesystem where
  "ex_fs_twins = \<lparr>nodes = [(''r'', ex_root\<lparr>children_ids := [''a'', ''b'', ''c'', ''d'']\<rparr>),
       (''a'', ex_logs), (''b'', ex_readme), (''c'', ex_memo), (''d'', ex_shadowed)],
     root_id = ''r'', cwd_id = ''r''\<rparr>"

section \<open>A small daemon system\<close>

definition ex_choice :: "nat \<Rightarrow> string list \<Rightarrow> string \<times> nat" where
  "ex_choice g xs = (xs ! (g mod length xs), Suc g)"

definition ex_watchdog :: Daemon where
  "ex_watchdog = \<lparr>d_name = ''WATCHDOG-7'', personality = AGGRESSIVE, d_node_id = ''a'',
     detection_radius = 2, alert_state = IDLE, alert_level = 0.3, move_cooldown = 1,
     turns_since_move = 0, pacified = False, daemon_id = ''daemon_1''\<rparr>"

definition ex_sleeper :: Daemon where
  "ex_sleeper = \<lparr>d_name = ''NAPPER-2'', personality = SLEEPY, d_node_id = ''c'',
     detection_radius = 0, alert_state = IDLE, alert_level = 0.0, move_cooldown = 3,
     turns_since_move = 0, pacified = True, daemon_id = ''daemon_2''\<rparr>"

definition ex_daemons :: "nat DaemonSystem" where
  "ex_daemons = \<lparr>ds_rm = ex_rm, ds_nodes = nodes ex_fs,
     daemons = [(''daemon_1'', ex_watchdog), (''daemon_2'', ex_sleeper)], rng = 0\<rparr>"

section \<open>A small bus\<close>

definition ex_scan_done :: Event where
  "ex_scan_done = \<lparr>etype = SCAN_COMPLETE, payload = [(''name'', VStr ''memo.doc'')],
     timing = IMMEDIATE, source = ''Filesystem''\<rparr>"

definition ex_log_entry :: Event where
  "ex_log_entry = \<lparr>etype = LOG_ENTRY_ADDED, payload = [], timing = IMMEDIATE, source = ''UI''\<rparr>"

text \<open>
  Handler 0 answers a scan-complete event by posting a log entry and calling \<open>flush\<close>;
  every other call only counts.
\<close>

definition ex_handlers :: "nat handlers" where
  "ex_handlers h ev s =
     (if h = 0 \<and> etype ev = SCAN_COMPLETE then ([APost ex_log_entry, AFlush], s)
      else ([], Suc s))"

definition ex_bus :: "nat Bus" where
  "ex_bus = \<lparr>evq = EventQueue_init\<lparr>pending := [ex_scan_done],
       subscribers := (\<lambda>t. if t = SCAN_COMPLETE then [0, 1] else if t = LOG_ENTRY_ADDED then [1]
                            else [])\<rparr>,
     hstate = 0, trace = []\<rparr>"

definition ex_rank :: "Event \<Rightarrow> nat" where
  "ex_rank ev = (if etype ev = SCAN_COMPLETE then 1 else 0)"

section \<open>A small profile, a generator and two id supplies\<close>

definition ex_random :: "nat Random" where
  "ex_random = \<lparr>rng_new = (\<lambda>s. nat \<bar>s\<bar>),
     rng_gauss = (\<lambda>mu sigma g. (mu, Suc g)),
     rng_shuffle = (\<lambda>xs g. (rev xs, Suc g)),
     rng_random = (\<lambda>g. (1 / 2, Suc g)),
     rng_uniform = (\<lambda>a b g. ((a + b) / 2, Suc g))\<rparr>"

definition ex_profile :: SiteProfile where
  "ex_profile = \<lparr>site_name = ''Test Site'', seed = 0, max_depth = 1, branch_factor = 0,
     files_per_dir = 2, debris_ratio = 0, artifact_density = 1, base_corruption = 0.1,
     theme = ''corporate'', dir_names = [''logs''], file_names = [''memo.doc'', ''readme.txt''],
     debris_names = [''debris_01'']\<rparr>"

definition ex_uuid_a :: "nat \<Rightarrow> string" where
  "ex_uuid_a k = CHR ''a'' # replicate k (CHR ''x'')"

definition ex_uuid_b :: "nat \<Rightarrow> string" where
  "ex_uuid_b k = replicate (Suc k) (CHR ''b'')"

section \<open>Resource gauges: spending\<close>

lemma pending_post_immediate:
  "pending (post_immediate t pl src q)
     = pending q @ [\<lparr>etype = t, payload = pl, timing = IMMEDIATE, source = src\<rparr>]"
  by (simp add: post_immediate_def post_def)

lemma pending_post_changed:
  "pending (post_changed rm r d src q) = pending q @ [changed_event rm r d src]"
  by (simp add: post_changed_def pending_post_immediate changed_event_def)

lemma post_immediate_rest:
  "deferred (post_immediate t pl src q) = deferred q"
  "subscribers (post_immediate t pl src q) = subscribers q"
  "turn (post_immediate t pl src q) = turn q"
  "flushing (post_immediate t pl src q) = flushing q"
  by (simp_all add: post_immediate_def post_def)

lemma slots_set_current:
  "slots (set_current rm r v) r' = (if r' = r then (slots rm r)\<lparr>current := v\<rparr> else slots rm r')"
  by (simp add: set_current_def)

text \<open>
  C2.  For a non-negative amount, \<open>consume\<close> is all or nothing.  When the gauge holds at
  least the amount it returns True, the gauge's current drops by exactly the amount (its
  maximum and the other gauges stay), a resource-changed event is posted, and a
  resource-depleted event follows it exactly when the new current is zero.  Otherwise it
  returns False and neither the manager nor the event queue changes.
\<close>

theorem consume_all_or_nothing:
  assumes "0 \<le> amount"
  shows "(amount \<le> current (slots rm resource) \<longrightarrow>
            (\<exists>rm' q'. consume resource amount src (rm, q) = (Inr True, rm', q')
               \<and> current (slots rm' resource) = current (slots rm resource) - amount
               \<and> maximum (slots rm' resource) = maximum (slots rm resource)
               \<and> (\<forall>r. r \<noteq> resource \<longrightarrow> slots rm' r = slots rm r)
               \<and> pending q' = pending q @ [changed_event rm' resource (- amount) src]
                    @ (if current (slots rm resource) - amount = 0
                       then [depleted_event resource src] else [])))
       \<and> (current (slots rm resource) < amount \<longrightarrow>
            consume resource amount src (rm, q) = (Inr False, rm, q))"
  using assms
  by (auto simp: consume_def Let_def slots_set_current is_depleted_def pending_post_changed
      pending_post_immediate depleted_event_def)

theorem consume_all_or_nothing_witness:
  "(0::real) \<le> 100 \<and> (100::real) \<le> 100 \<and> (100::real) < 101
   \<and> fst (consume POWER 100 ''ScanCommand'' (ResourceManager_init 100 50 80 1, EventQueue_init))
     = Inr True
   \<and> map etype (pending (snd (snd
        (consume POWER 100 ''ScanCommand'' (ResourceManager_init 100 50 80 1, EventQueue_init)))))
     = [RESOURCE_CHANGED, RESOURCE_DEPLETED]
   \<and> consume POWER 101 ''ScanCommand'' (ResourceManager_init 100 50 80 1, EventQueue_init)
     = (Inr False, ResourceManager_init 100 50 80 1, EventQueue_init)"
  using consume_all_or_nothing [of 100 "ResourceManager_init 100 50 80 1" POWER "''ScanCommand''"
      EventQueue_init]
    consume_all_or_nothing [of 101 "ResourceManager_init 100 50 80 1" POWER "''ScanCommand''"
      EventQueue_init]
  by (auto simp: ResourceManager_init_def EventQueue_init_def changed_event_def
      depleted_event_def)

section \<open>Resource gauges: change events\<close>

text \<open>
  C9 as stated: every successful restore posts a resource-changed event, also a restore of
  a positive amount on a gauge that is already at its maximum.  The source posts the event
  only under \<open>if actual_gain > 0\<close>: restoring 5 units of power to a full gauge succeeds and
  posts nothing.
\<close>

theorem restore_full_gauge_counterexample:
  "(0::real) < 5
   \<and> current (slots (ResourceManager_init 100 50 80 1) POWER)
       = maximum (slots (ResourceManager_init 100 50 80 1) POWER)
   \<and> fst (restore POWER 5 ''UpgradeSystem'' (ResourceManager_init 100 50 80 1, EventQueue_init))
       = Inr ()
   \<and> pending (snd (snd
        (restore POWER 5 ''UpgradeSystem'' (ResourceManager_init 100 50 80 1, EventQueue_init))))
       = []"
  by (simp add: restore_def ResourceManager_init_def EventQueue_init_def Let_def)

text \<open>
  C9 amended: every successful consume and every \<open>set_maximum\<close> posts a resource-changed
  event whose payload carries the ratio of the gauge after the operation; a restore posts
  that event exactly when the amount actually gained (the amount capped by the room left
  under the maximum) is positive, and posts nothing otherwise.
\<close>

theorem resource_changed_events:
  "(0 \<le> amount \<and> amount \<le> current (slots rm r) \<longrightarrow>
      (\<exists>rm' q' rest. consume r amount src (rm, q) = (Inr True, rm', q')
         \<and> pending q' = pending q @ changed_event rm' r (- amount) src # rest))
   \<and> (0 \<le> amount \<longrightarrow>
      (\<exists>rm' q'. restore r amount src (rm, q) = (Inr (), rm', q')
         \<and> pending q' = pending q @
              (if 0 < min amount (maximum (slots rm r) - current (slots rm r))
               then [changed_event rm' r
                       (min amount (maximum (slots rm r) - current (slots rm r))) src]
               else [])))
   \<and> (0 < new_max \<longrightarrow>
      (\<exists>rm' q'. set_maximum r new_max (rm, q) = (Inr (), rm', q')
         \<and> pending q' = pending q @ [changed_event rm' r 0 ''Upgrade'']))
   \<and> map_of (payload (changed_event rm1 r delta src)) ''ratio''
       = Some (VFloat (ratio (slots rm1 r)))"
  by (auto simp: consume_def restore_def set_maximum_def Let_def pending_post_changed
      pending_post_immediate changed_event_def)

theorem resource_changed_events_witness:
  "(0::real) \<le> 30 \<and> (30::real) \<le> 100 \<and> (0::real) < 200
   \<and> map etype (pending (snd (snd
        (consume POWER 30 ''Scan'' (ResourceManager_init 100 50 80 1, EventQueue_init)))))
       = [RESOURCE_CHANGED]
   \<and> map etype (pending (snd (snd
        (restore POWER 30 ''Rest'' (ResourceManager_init 100 50 80 1, EventQueue_init)))))
       = []
   \<and> map etype (pending (snd (snd
        (set_maximum POWER 200 (ResourceManager_init 100 50 80 1, EventQueue_init)))))
       = [RESOURCE_CHANGED]"
  using resource_changed_events [of 30 "ResourceManager_init 100 50 80 1" POWER "''Scan''"
      EventQueue_init 200 "ResourceManager_init 100 50 80 1" 0]
    resource_changed_events [of 30 "ResourceManager_init 100 50 80 1" POWER "''Rest''"
      EventQueue_init 200 "ResourceManager_init 100 50 80 1" 0]
  by (auto simp: ResourceManager_init_def EventQueue_init_def changed_event_def
      depleted_event_def consume_def Let_def is_depleted_def set_current_def
      post_changed_def post_immediate_def post_def)

section \<open>Filesystem: navigation\<close>

lemmas ex_defs = ex_fs_def ex_root_def ex_logs_def ex_readme_def ex_memo_def

text \<open>
  C10.  Whenever \<open>change_directory\<close> raises, the filesystem it leaves behind is the one it
  was called on: the current directory and every node are as before.  The four failures
  that the interface names (no child of that name, a HIDDEN child, a child that is not a
  directory, \<open>..\<close> at the root) all raise \<open>FilesystemError\<close>.
\<close>

theorem change_directory_failure_keeps_state:
  "(fst (change_directory nm fs) = Inl e \<longrightarrow> snd (change_directory nm fs) = fs)
   \<and> (fs_node fs (cwd_id fs) = Inr cwd \<longrightarrow>
        (nm \<noteq> ''..'' \<and> child_by_name (nodes fs) nm (children_ids cwd) = None \<longrightarrow>
           change_directory nm fs = (Inl FilesystemError, fs))
      \<and> (nm \<noteq> ''..'' \<and> child_by_name (nodes fs) nm (children_ids cwd) = Some (cid, target)
           \<and> visibility target = HIDDEN \<longrightarrow>
           change_directory nm fs = (Inl FilesystemError, fs))
      \<and> (nm \<noteq> ''..'' \<and> child_by_name (nodes fs) nm (children_ids cwd) = Some (cid, target)
           \<and> \<not> is_directory target \<longrightarrow>
           change_directory nm fs = (Inl FilesystemError, fs))
      \<and> (nm = ''..'' \<and> is_root cwd \<longrightarrow>
           change_directory nm fs = (Inl FilesystemError, fs)))"
  by (auto simp: change_directory_def is_root_def split: sum.splits option.splits if_splits)

theorem change_directory_failure_keeps_state_witness:
  "fst (change_directory ''logs'' ex_fs) = Inl FilesystemError
   \<and> snd (change_directory ''logs'' ex_fs) = ex_fs
   \<and> fs_node ex_fs (cwd_id ex_fs) = Inr ex_root
   \<and> child_by_name (nodes ex_fs) ''logs'' (children_ids ex_root) = Some (''a'', ex_logs)
   \<and> visibility ex_logs = HIDDEN
   \<and> is_root ex_root
   \<and> change_directory ''..'' ex_fs = (Inl FilesystemError, ex_fs)"
  using change_directory_failure_keeps_state [of "''logs''" ex_fs FilesystemError ex_root
      "''a''" ex_logs]
    change_directory_failure_keeps_state [of "''..''" ex_fs FilesystemError ex_root
      "''a''" ex_logs]
  by (simp add: ex_defs fs_node_def is_root_def)

section \<open>Filesystem: scan\<close>

text \<open>
  \<open>_child_by_name\<close> finds the first child bearing the name, and only a present child that
  bears it.
\<close>

lemma child_by_name_first:
  assumes "\<forall>c\<in>set earlier. \<forall>n. map_of ns c = Some n \<longrightarrow> name n \<noteq> nm"
    and "map_of ns cid = Some target" and "name target = nm"
  shows "child_by_name ns nm (earlier @ cid # later) = Some (cid, target)"
  using assms by (induction earlier) (auto split: option.splits)

lemma child_by_name_Some:
  "child_by_name ns nm cids = Some (cid, target) \<Longrightarrow>
     cid \<in> set cids \<and> map_of ns cid = Some target \<and> name target = nm"
  by (induction cids) (auto split: option.splits if_splits)

lemma scan_no_target:
  assumes "fs_node fs (cwd_id fs) = Inr cwd"
    and "child_by_name (nodes fs) nm (children_ids cwd) = None"
  shows "fst (snd (scan nm (fs, q))) = fs"
  using assms by (simp add: scan_def)

lemma visibility_update_same: "visibility n = v \<Longrightarrow> n\<lparr>visibility := v\<rparr> = n"
  by (cases n) simp

lemma scan_target:
  assumes "fs_node fs (cwd_id fs) = Inr cwd"
    and "child_by_name (nodes fs) nm (children_ids cwd) = Some (cid, target)"
  shows "fst (snd (scan nm (fs, q)))
     = fs\<lparr>nodes := AList.update cid
          (target\<lparr>visibility :=
             (case visibility target of HIDDEN \<Rightarrow> DETECTED | DETECTED \<Rightarrow> REVEALED
              | REVEALED \<Rightarrow> REVEALED)\<rparr>) (nodes fs)\<rparr>"
  using assms
  by (cases "visibility target") (simp_all add: scan_def Let_def visibility_update_same)

lemma scan_keeps_twin:
  assumes "cwd_id fs = ''r''"
    and "map_of (nodes fs) ''r'' = Some rt" and "children_ids rt = [''a'', ''b'', ''c'', ''d'']"
    and "map_of (nodes fs) ''b'' = Some n" and "name n = ''readme.txt''"
    and "map_of (nodes fs) ''d'' = Some ex_shadowed"
  shows "cwd_id (fst (snd (scan nm (fs, q)))) = ''r''
    \<and> map_of (nodes (fst (snd (scan nm (fs, q))))) ''r'' = Some rt
    \<and> (\<exists>n'. map_of (nodes (fst (snd (scan nm (fs, q))))) ''b'' = Some n'
          \<and> name n' = ''readme.txt'')
    \<and> map_of (nodes (fst (snd (scan nm (fs, q))))) ''d'' = Some ex_shadowed"
proof (cases "child_by_name (nodes fs) nm (children_ids rt)")
  case None
  have cwd: "fs_node fs (cwd_id fs) = Inr rt"
    using assms by (simp add: fs_node_def)
  from scan_no_target [OF cwd None] assms show ?thesis by simp
next
  case (Some p)
  obtain cid target where p: "p = (cid, target)" by (cases p)
  have cwd: "fs_node fs (cwd_id fs) = Inr rt"
    using assms by (simp add: fs_node_def)
  from Some p have c: "child_by_name (nodes fs) nm (children_ids rt) = Some (cid, target)"
    by simp
  note u = scan_target [OF cwd c, of q]
  from child_by_name_Some [OF c] assms(3)
  have m: "cid \<in> {''a'', ''b'', ''c'', ''d''}" "map_of (nodes fs) cid = Some target"
    "name target = nm" by auto
  have "cid \<noteq> ''d''"
    using c assms(3,4,5,6) by (auto simp: ex_shadowed_def split: option.splits if_splits)
  with m assms show ?thesis
    by (auto simp: u update_conv')
qed

lemma scans_keep_twin:
  assumes "cwd_id (fst st) = ''r''"
    and "map_of (nodes (fst st)) ''r'' = Some rt" and "children_ids rt = [''a'', ''b'', ''c'', ''d'']"
    and "\<exists>n. map_of (nodes (fst st)) ''b'' = Some n \<and> name n = ''readme.txt''"
    and "map_of (nodes (fst st)) ''d'' = Some ex_shadowed"
  shows "map_of (nodes (fst (fold (\<lambda>nm st. snd (scan nm st)) nms st))) ''d'' = Some ex_shadowed"
  using assms
proof (induction nms arbitrary: st)
  case Nil
  then show ?case by simp
next
  case (Cons nm nms)
  obtain fs q where st: "st = (fs, q)" by (cases st)
  from Cons.prems obtain n where n: "map_of (nodes fs) ''b'' = Some n" "name n = ''readme.txt''"
    by (auto simp: st)
  from scan_keeps_twin [of fs rt n nm q] Cons.prems n
  have k: "cwd_id (fst (snd (scan nm (fs, q)))) = ''r''"
    "map_of (nodes (fst (snd (scan nm (fs, q))))) ''r'' = Some rt"
    "\<exists>n'. map_of (nodes (fst (snd (scan nm (fs, q))))) ''b'' = Some n' \<and> name n' = ''readme.txt''"
    "map_of (nodes (fst (snd (scan nm (fs, q))))) ''d'' = Some ex_shadowed"
    by (simp_all add: st)
  from Cons.IH [OF k(1) k(2) Cons.prems(3) k(3) k(4)] show ?case
    by (simp add: st)
qed

lemmas ex_twins_defs = ex_fs_twins_def ex_shadowed_def ex_root_def ex_logs_def ex_readme_def ex_memo_def

text \<open>
  C3 as stated fails in two ways.  First, a scan of an already REVEALED node is not a no-op
  with no event: in the source the artifact-found event depends on the visibility after the
  scan, not on a change, and the scan-complete event is unconditional, so scanning the
  REVEALED file \<open>readme.txt\<close>, which carries an artifact, posts both.  Second, not every
  child of the current directory is advanced: \<open>scan\<close> takes a name and resolves it to the
  first child bearing it, so in a directory that holds two children named \<open>readme.txt\<close> the
  later one is HIDDEN before and after a scan of that name, and after any sequence of scans
  whatever the names.
\<close>

theorem scan_revealed_counterexample:
  "child_by_name (nodes ex_fs) ''readme.txt'' (children_ids ex_root) = Some (''b'', ex_readme)
   \<and> visibility ex_readme = REVEALED
   \<and> map etype (pending (snd (snd (scan ''readme.txt'' (ex_fs, EventQueue_init)))))
       = [ARTIFACT_FOUND, SCAN_COMPLETE]
   \<and> fs_node ex_fs_twins (cwd_id ex_fs_twins)
       = Inr (ex_root\<lparr>children_ids := [''a'', ''b'', ''c'', ''d'']\<rparr>)
   \<and> map_of (nodes ex_fs_twins) ''d'' = Some ex_shadowed
   \<and> name ex_shadowed = ''readme.txt''
   \<and> visibility ex_shadowed = HIDDEN
   \<and> fst (scan ''readme.txt'' (ex_fs_twins, EventQueue_init)) = Inr ex_readme
   \<and> map_option visibility
        (map_of (nodes (fst (snd (scan ''readme.txt'' (ex_fs_twins, EventQueue_init))))) ''d'')
       = Some HIDDEN
   \<and> (\<forall>nms. map_option visibility
          (map_of (nodes (fst (fold (\<lambda>nm st. snd (scan nm st)) nms
             (ex_fs_twins, EventQueue_init)))) ''d'')
        = Some HIDDEN)"
proof -
  have a: "child_by_name (nodes ex_fs) ''readme.txt'' (children_ids ex_root) = Some (''b'', ex_readme)
   \<and> visibility ex_readme = REVEALED
   \<and> map etype (pending (snd (snd (scan ''readme.txt'' (ex_fs, EventQueue_init)))))
       = [ARTIFACT_FOUND, SCAN_COMPLETE]"
    by (simp add: ex_defs scan_def fs_node_def EventQueue_init_def Let_def is_file_def
      has_artifact_def post_immediate_def post_def)
  have b: "fs_node ex_fs_twins (cwd_id ex_fs_twins)
       = Inr (ex_root\<lparr>children_ids := [''a'', ''b'', ''c'', ''d'']\<rparr>)
   \<and> map_of (nodes ex_fs_twins) ''d'' = Some ex_shadowed
   \<and> name ex_shadowed = ''readme.txt''
   \<and> visibility ex_shadowed = HIDDEN"
    by (simp add: ex_twins_defs fs_node_def)
  have c: "fst (scan ''readme.txt'' (ex_fs_twins, EventQueue_init)) = Inr ex_readme
   \<and> map_option visibility
        (map_of (nodes (fst (snd (scan ''readme.txt'' (ex_fs_twins, EventQueue_init))))) ''d'')
       = Some HIDDEN"
    by (simp add: ex_twins_defs scan_def fs_node_def Let_def)
  have d: "map_of (nodes (fst (fold (\<lambda>nm st. snd (scan nm st)) nms
             (ex_fs_twins, EventQueue_init)))) ''d'' = Some ex_shadowed" for nms
    by (rule scans_keep_twin [where rt = "ex_root\<lparr>children_ids := [''a'', ''b'', ''c'', ''d'']\<rparr>"])
      (simp_all add: ex_fs_twins_def ex_readme_def)
  have e: "visibility ex_shadowed = HIDDEN" by (simp add: ex_shadowed_def)
  from a b c d e show ?thesis by simp
qed

text \<open>
  C3 amended: \<open>scan\<close> resolves the name to the first child of the current directory that
  bears it.  For every child of the current directory that has no earlier sibling of the
  same name, a scan of its name moves the visibility of that child exactly one step up
  (HIDDEN to DETECTED, DETECTED to REVEALED), never down, and changes nothing else of the
  node; every other node of the registry, a later sibling of the same name included, is left
  as it is.  On an already REVEALED node the node stays as it is and no node-revealed event
  is posted.  Whenever the node is REVEALED after the scan, whether it just became so or
  already was, and is a FILE carrying an artifact, an artifact-found event is posted.  A
  scan-complete event is always posted, last.
\<close>

theorem scan_advances_one_step:
  assumes "fs_node fs (cwd_id fs) = Inr cwd"
    and "children_ids cwd = earlier @ cid # later"
    and "\<forall>c\<in>set earlier. \<forall>n. map_of (nodes fs) c = Some n \<longrightarrow> name n \<noteq> nm"
    and "map_of (nodes fs) cid = Some target"
    and "name target = nm"
  shows "\<exists>target' fs' q'.
      scan nm (fs, q) = (Inr target', fs', q')
    \<and> target' = target\<lparr>visibility :=
         (case visibility target of HIDDEN \<Rightarrow> DETECTED | DETECTED \<Rightarrow> REVEALED
          | REVEALED \<Rightarrow> REVEALED)\<rparr>
    \<and> fs' = fs\<lparr>nodes := AList.update cid target' (nodes fs)\<rparr>
    \<and> map_of (nodes fs') cid = Some target'
    \<and> (\<forall>k. k \<noteq> cid \<longrightarrow> map_of (nodes fs') k = map_of (nodes fs) k)
    \<and> pending q' = pending q
        @ (if visibility target \<noteq> REVEALED then [revealed_event target'] else [])
        @ (if visibility target \<noteq> HIDDEN \<and> is_file target \<and> has_artifact target
           then [artifact_found_event target'] else [])
        @ [scan_complete_event target']"
proof -
  have c: "child_by_name (nodes fs) nm (children_ids cwd) = Some (cid, target)"
    using assms(2-5) by (simp add: child_by_name_first)
  show ?thesis
    using assms(1) c
    by (cases "visibility target")
      (simp_all add: scan_def Let_def pending_post_immediate revealed_event_def
        artifact_found_event_def scan_complete_event_def is_file_def has_artifact_def
        update_conv')
qed

theorem scan_advances_one_step_witness:
  "fs_node ex_fs (cwd_id ex_fs) = Inr ex_root
   \<and> children_ids ex_root = [''a'', ''b''] @ ''c'' # []
   \<and> map_option name (map_of (nodes ex_fs) ''a'') = Some ''logs''
   \<and> map_option name (map_of (nodes ex_fs) ''b'') = Some ''readme.txt''
   \<and> map_of (nodes ex_fs) ''c'' = Some ex_memo
   \<and> name ex_memo = ''memo.doc''
   \<and> visibility ex_memo = DETECTED
   \<and> fst (scan ''memo.doc'' (ex_fs, EventQueue_init)) = Inr (ex_memo\<lparr>visibility := REVEALED\<rparr>)
   \<and> map (\<lambda>(k, n). (k, visibility n))
        (nodes (fst (snd (scan ''memo.doc'' (ex_fs, EventQueue_init)))))
       = [(''r'', REVEALED), (''a'', HIDDEN), (''b'', REVEALED), (''c'', REVEALED)]
   \<and> map etype (pending (snd (snd (scan ''memo.doc'' (ex_fs, EventQueue_init)))))
       = [NODE_REVEALED, SCAN_COMPLETE]"
proof -
  have a: "fs_node ex_fs (cwd_id ex_fs) = Inr ex_root"
    by (simp add: ex_defs fs_node_def)
  have b: "children_ids ex_root = [''a'', ''b''] @ ''c'' # []"
    by (simp add: ex_defs)
  have c: "\<forall>c\<in>set [''a'', ''b'']. \<forall>n. map_of (nodes ex_fs) c = Some n \<longrightarrow> name n \<noteq> ''memo.doc''"
    by (simp add: ex_defs)
  have d: "map_of (nodes ex_fs) ''c'' = Some ex_memo"
    by (simp add: ex_defs)
  have e: "name ex_memo = ''memo.doc''"
    by (simp add: ex_defs)
  from scan_advances_one_step [OF a b c d e, of EventQueue_init] a show ?thesis
    by (auto simp: ex_defs EventQueue_init_def revealed_event_def scan_complete_event_def
        is_file_def has_artifact_def)
qed

section \<open>Filesystem: corruption tick\<close>

lemma pending_post_crossed:
  "pending (post_crossed ts before n q)
     = pending q @ take 1 (map (corrupted_event n) (filter (\<lambda>t. before < t \<and> t \<le> corruption n) ts))"
  by (induction ts) (simp_all add: pending_post_immediate corrupted_event_def)

lemma tick_nodes_result:
  "tick_nodes ns q = (ns', q') \<Longrightarrow>
     ns' = map (\<lambda>(k, n). (k, if visibility n = HIDDEN then n
                               else apply_corruption CORRUPTION_TICK n)) ns
   \<and> pending q' = pending q @ concat (map (\<lambda>(k, n).
        if visibility n = HIDDEN then []
        else take 1 (map (corrupted_event (apply_corruption CORRUPTION_TICK n))
               (filter (\<lambda>t. corruption n < t
                    \<and> t \<le> corruption (apply_corruption CORRUPTION_TICK n)) thresholds))) ns)"
proof (induction ns arbitrary: q ns' q')
  case Nil
  then show ?case by simp
next
  case (Cons p ns)
  obtain k n where p: "p = (k, n)" by (cases p)
  show ?case
  proof (cases "visibility n = HIDDEN")
    case True
    obtain r1 q1 where r: "tick_nodes ns q = (r1, q1)" by (cases "tick_nodes ns q")
    from Cons.prems p True r have "ns' = (k, n) # r1" "q' = q1" by simp_all
    with Cons.IH [OF r] p True show ?thesis by simp
  next
    case False
    let ?n = "apply_corruption CORRUPTION_TICK n"
    let ?q = "post_crossed thresholds (corruption n) ?n q"
    obtain r1 q1 where r: "tick_nodes ns ?q = (r1, q1)" by (cases "tick_nodes ns ?q")
    from Cons.prems p False r have "ns' = (k, ?n) # r1" "q' = q1" by (simp_all add: Let_def)
    with Cons.IH [OF r] p False show ?thesis by (simp add: pending_post_crossed)
  qed
qed

text \<open>
  C4 as stated: \<open>tick\<close> adds the fixed increment to every node that is not HIDDEN.  The
  source adds it through \<open>apply_corruption\<close>, which clamps the sum to [0, 1]: the REVEALED
  file of corruption 0.99 ends the tick at 1, not at 1.01.
\<close>

theorem tick_clamps_counterexample:
  "map_of (nodes ex_fs) ''b'' = Some ex_readme
   \<and> visibility ex_readme = REVEALED \<and> corruption ex_readme = 0.99
   \<and> map_option corruption (map_of (nodes (fst (tick (ex_fs, EventQueue_init)))) ''b'') = Some 1
   \<and> corruption ex_readme + CORRUPTION_TICK \<noteq> 1"
  by (simp add: ex_defs tick_def apply_corruption_def CORRUPTION_TICK_def Let_def
      split: prod.splits)

text \<open>
  C4 amended: \<open>tick\<close> leaves HIDDEN nodes unchanged and sets the corruption of every other
  node to its corruption plus the fixed increment 0.02, clamped to [0, 1]; nothing else of
  a node, and neither the root nor the current directory, changes.  For each such node,
  in registry order, it posts the corruption-threshold event of the first boundary \<open>t\<close> of
  0.25, 0.50, 0.75, 1.0 with \<open>before < t \<le> after\<close>, and only that one: one event when at
  least one boundary is crossed, none otherwise.
\<close>

theorem tick_corruption_and_threshold_events:
  assumes "tick (fs, q) = (fs', q')"
  shows "nodes fs' = map (\<lambda>(k, n). (k, if visibility n = HIDDEN then n
            else n\<lparr>corruption := max 0 (min 1 (corruption n + 0.02))\<rparr>)) (nodes fs)
    \<and> root_id fs' = root_id fs \<and> cwd_id fs' = cwd_id fs
    \<and> pending q' = pending q @ concat (map (\<lambda>(k, n).
         if visibility n = HIDDEN then []
         else take 1 (map (corrupted_event (n\<lparr>corruption := max 0 (min 1 (corruption n + 0.02))\<rparr>))
                (filter (\<lambda>t. corruption n < t \<and> t \<le> max 0 (min 1 (corruption n + 0.02)))
                   [0.25, 0.50, 0.75, 1.0]))) (nodes fs))"
proof -
  obtain ns1 q1 where r: "tick_nodes (nodes fs) q = (ns1, q1)"
    by (cases "tick_nodes (nodes fs) q")
  with assms have e: "fs' = fs\<lparr>nodes := ns1\<rparr>" "q' = q1"
    by (simp_all add: tick_def)
  from tick_nodes_result [OF r] e show ?thesis
    unfolding apply_corruption_def CORRUPTION_TICK_def thresholds_def
    by (simp add: case_prod_unfold cong: if_cong)
qed

theorem tick_corruption_and_threshold_events_witness:
  "map (\<lambda>(k, n). (k, corruption n)) (nodes (fst (tick (ex_fs, EventQueue_init))))
     = [(''r'', 0.12), (''a'', 0.5), (''b'', 1), (''c'', 0.26)]
   \<and> map (\<lambda>e. (etype e, map_of (payload e) ''node_id'', map_of (payload e) ''threshold''))
        (pending (snd (tick (ex_fs, EventQueue_init))))
     = [(NODE_CORRUPTED, Some (VStr ''b''), Some (VFloat 1)),
        (NODE_CORRUPTED, Some (VStr ''c''), Some (VFloat 0.25))]"
  using tick_corruption_and_threshold_events [of ex_fs EventQueue_init
      "fst (tick (ex_fs, EventQueue_init))" "snd (tick (ex_fs, EventQueue_init))"]
  by (simp add: ex_defs EventQueue_init_def corrupted_event_def)

section \<open>Artifacts: collecting\<close>

lemma round_half_even_bounds: "\<bar>of_int (round_half_even x) - x\<bar> \<le> 1 / 2"
  unfolding round_half_even_def Let_def
  by (auto simp: abs_if) linarith+

lemma round_half_even_of_int: "round_half_even (of_int k) = k"
  by (simp add: round_half_even_def)

lemma py_round1_one_decimal:
  "(\<exists>k::int. py_round1 x = of_int k / 10) \<and> \<bar>py_round1 x - x\<bar> \<le> 1 / 20"
proof -
  have "\<bar>of_int (round_half_even (x * 10)) - x * 10\<bar> \<le> 1 / 2"
    by (rule round_half_even_bounds)
  then have "\<bar>of_int (round_half_even (x * 10)) / 10 - x\<bar> \<le> 1 / 20"
    by (simp add: abs_if field_simps split: if_splits)
  then show ?thesis by (auto simp: py_round1_def)
qed

lemma py_round1_example: "py_round1 (1125 / 10) = 1125 / 10"
  using round_half_even_of_int [of 1125] by (simp add: py_round1_def)

lemma py_round1_rounds: "py_round1 (13 / 8) = 8 / 5"
  by (simp add: py_round1_def round_half_even_def Let_def)

text \<open>
  C6.  \<open>collect\<close> returns True exactly when the artifact is registered, is FOUND, and the
  memory gauge holds the fixed cost of 10 (so that the consume succeeds).  Then the
  artifact gets \<open>condition = max(0.01, 1 - node_corruption)\<close>, \<open>sell_value\<close> = base value 50
  times the rarity multiplier times that condition, rounded to one decimal (the stored
  value is a whole number of tenths and lies within one twentieth of that product), and
  state COLLECTED; the gauge drops by the cost.  For an unknown id or a state other than FOUND it
  returns False and nothing changes, the event queue included; with too little memory it
  returns False, leaves registry and gauges as they were, and posts the reconstruct-end
  event with \<open>success = False\<close> and reason \<open>insufficient_memory\<close>.
\<close>

theorem collect_found_artifact:
  "(map_of (artifacts sys) aid = None \<longrightarrow>
      collect aid c (sys, rm, q) = (Inr False, sys, rm, q))
   \<and> (map_of (artifacts sys) aid = Some a \<and> state a \<noteq> FOUND \<longrightarrow>
      collect aid c (sys, rm, q) = (Inr False, sys, rm, q))
   \<and> (map_of (artifacts sys) aid = Some a \<and> state a = FOUND
        \<and> current (slots rm MEMORY) < MEMORY_COST \<longrightarrow>
      collect aid c (sys, rm, q)
        = (Inr False, sys, rm, q\<lparr>pending := pending q @ [reconstruct_failed_event aid]\<rparr>))
   \<and> (map_of (artifacts sys) aid = Some a \<and> state a = FOUND
        \<and> MEMORY_COST \<le> current (slots rm MEMORY) \<longrightarrow>
      (\<exists>sys' rm' q'. collect aid c (sys, rm, q) = (Inr True, sys', rm', q')
         \<and> artifacts sys' = AList.update aid
              (a\<lparr>condition := max 0.01 (1 - c),
                 sell_value := py_round1 (BASE_VALUE * value_multiplier (rarity a)
                                            * max 0.01 (1 - c)),
                 state := COLLECTED\<rparr>) (artifacts sys)
         \<and> (\<exists>a' k. map_of (artifacts sys') aid = Some a'
               \<and> state a' = COLLECTED
               \<and> condition a' = max 0.01 (1 - c)
               \<and> sell_value a' = of_int k / 10
               \<and> \<bar>sell_value a' - BASE_VALUE * value_multiplier (rarity a) * condition a'\<bar>
                   \<le> 1 / 20)
         \<and> currency sys' = currency sys
         \<and> current (slots rm' MEMORY) = current (slots rm MEMORY) - MEMORY_COST))
   \<and> (fst (collect aid c (sys, rm, q)) = Inr True \<longleftrightarrow>
        (\<exists>b. map_of (artifacts sys) aid = Some b \<and> state b = FOUND
           \<and> MEMORY_COST \<le> current (slots rm MEMORY)))"
  using py_round1_one_decimal [of "BASE_VALUE * value_multiplier (rarity a) * max 0.01 (1 - c)"]
  by (auto simp: collect_def consume_def MEMORY_COST_def Let_def compute_value_def
      slots_set_current reconstruct_failed_event_def post_immediate_def post_def
      update_conv'
      split: option.splits)

theorem collect_found_artifact_witness:
  "map_of (artifacts ex_arts) ''arc_corporate_0000'' = Some ex_relic \<and> state ex_relic = FOUND
   \<and> MEMORY_COST \<le> current (slots ex_rm MEMORY)
   \<and> fst (collect ''arc_corporate_0000'' 0.1 (ex_arts, ex_rm, EventQueue_init)) = Inr True
   \<and> map (\<lambda>(k, a). (state a, condition a, sell_value a))
        (artifacts (fst (snd (collect ''arc_corporate_0000'' 0.1 (ex_arts, ex_rm, EventQueue_init)))))
       = [(COLLECTED, 0.9, 112.5)]
   \<and> current (slots (fst (snd (snd
        (collect ''arc_corporate_0000'' 0.1 (ex_arts, ex_rm, EventQueue_init))))) MEMORY) = 40
   \<and> fst (collect ''arc_corporate_0000'' 0.987 (ex_arts, ex_rm, EventQueue_init)) = Inr True
   \<and> BASE_VALUE * value_multiplier (rarity ex_relic) * max 0.01 (1 - 0.987) = 1.625
   \<and> map (\<lambda>(k, a). (state a, condition a, sell_value a))
        (artifacts (fst (snd (collect ''arc_corporate_0000'' 0.987 (ex_arts, ex_rm, EventQueue_init)))))
       = [(COLLECTED, 0.013, 1.6)]"
  using collect_found_artifact [of ex_arts "''arc_corporate_0000''" "0.1" ex_rm EventQueue_init
      ex_relic]
    collect_found_artifact [of ex_arts "''arc_corporate_0000''" "0.987" ex_rm EventQueue_init
      ex_relic]
    py_round1_example py_round1_rounds
  by (auto simp: ex_arts_def ex_relic_def ex_rm_def ResourceManager_init_def MEMORY_COST_def
      BASE_VALUE_def)

section \<open>Artifacts: selling\<close>

text \<open>
  C7 as stated: selling a COLLECTED artifact gives the fixed memory cost back to the memory
  gauge.  The source gives it back through \<open>restore\<close>, which caps the gain at the room left
  under the maximum.  After collecting (memory 50 to 40) and a restore of 5 by another
  caller (to 45), the sale brings the gauge to 50: it gains 5, not the cost of 10.
\<close>

theorem sell_capped_counterexample:
  "(case collect ''arc_corporate_0000'' 0.1 (ex_arts, ex_rm, EventQueue_init) of
      (r1, sys1, rm1, q1) \<Rightarrow>
        (case restore MEMORY 5 ''Upgrade'' (rm1, q1) of
           (r2, rm2, q2) \<Rightarrow>
             (case sell ''arc_corporate_0000'' (sys1, rm2, q2) of
                (r3, sys3, rm3, q3) \<Rightarrow>
                  r1 = Inr True \<and> r2 = Inr ()
                  \<and> map_option state (map_of (artifacts sys1) ''arc_corporate_0000'')
                      = Some COLLECTED
                  \<and> current (slots rm2 MEMORY) = 45
                  \<and> r3 = Inr 112.5
                  \<and> current (slots rm3 MEMORY) = 50
                  \<and> current (slots rm3 MEMORY) \<noteq> current (slots rm2 MEMORY) + MEMORY_COST)))"
  using py_round1_example
  by (simp add: collect_def consume_def restore_def sell_def ex_arts_def ex_relic_def ex_rm_def
      ResourceManager_init_def MEMORY_COST_def BASE_VALUE_def Let_def compute_value_def
      set_current_def is_depleted_def)

text \<open>
  C7 amended: \<open>sell\<close> on a COLLECTED artifact sets its state to SOLD, adds its
  \<open>sell_value\<close> to the running currency total, zeroes its \<open>sell_value\<close>, restores the fixed
  memory cost to the memory gauge capped at the gauge's maximum (the gauge gains
  \<open>min(10, maximum - current)\<close>, which is the whole cost whenever that much room is left),
  posts a sale event, and returns the earned value.  For an unknown id or an artifact in
  any other state it returns 0.0 and nothing changes: registry, currency, gauges and event
  queue are as before.
\<close>

theorem sell_collected_artifact:
  "(map_of (artifacts sys) aid = Some a \<and> state a = COLLECTED \<longrightarrow>
      (\<exists>sys' rm' q'. sell aid (sys, rm, q) = (Inr (sell_value a), sys', rm', q')
         \<and> artifacts sys' = AList.update aid (a\<lparr>state := SOLD, sell_value := 0\<rparr>) (artifacts sys)
         \<and> currency sys' = currency sys + sell_value a
         \<and> current (slots rm' MEMORY) = current (slots rm MEMORY)
              + min MEMORY_COST (maximum (slots rm MEMORY) - current (slots rm MEMORY))
         \<and> maximum (slots rm' MEMORY) = maximum (slots rm MEMORY)
         \<and> slots rm' POWER = slots rm POWER \<and> slots rm' ENERGY = slots rm ENERGY
         \<and> pending q' = pending q
              @ (if 0 < min MEMORY_COST (maximum (slots rm MEMORY) - current (slots rm MEMORY))
                 then [changed_event rm' MEMORY
                         (min MEMORY_COST (maximum (slots rm MEMORY) - current (slots rm MEMORY)))
                         ''ArtifactSystem'']
                 else [])
              @ [sale_event aid (a\<lparr>state := SOLD, sell_value := 0\<rparr>) (sell_value a)]))
   \<and> (map_of (artifacts sys) aid = None
        \<or> (map_of (artifacts sys) aid = Some a \<and> state a \<noteq> COLLECTED) \<longrightarrow>
      sell aid (sys, rm, q) = (Inr 0, sys, rm, q))"
  by (auto simp: sell_def restore_def MEMORY_COST_def Let_def slots_set_current
      pending_post_changed pending_post_immediate sale_event_def)

theorem sell_collected_artifact_witness:
  "map_option state (map_of (artifacts ex_held) ''arc_corporate_0000'') = Some COLLECTED
   \<and> fst (sell ''arc_corporate_0000'' (ex_held, set_current ex_rm MEMORY 40, EventQueue_init))
       = Inr 112.5
   \<and> map (\<lambda>(k, a). (state a, sell_value a))
        (artifacts (fst (snd
          (sell ''arc_corporate_0000'' (ex_held, set_current ex_rm MEMORY 40, EventQueue_init)))))
       = [(SOLD, 0)]
   \<and> currency (fst (snd
        (sell ''arc_corporate_0000'' (ex_held, set_current ex_rm MEMORY 40, EventQueue_init))))
       = 119.5
   \<and> current (slots (fst (snd (snd
        (sell ''arc_corporate_0000'' (ex_held, set_current ex_rm MEMORY 40, EventQueue_init)))))
          MEMORY) = 50
   \<and> map_of (artifacts ex_arts) ''arc_corporate_0000'' = Some ex_relic
   \<and> state ex_relic \<noteq> COLLECTED
   \<and> sell ''arc_corporate_0000'' (ex_arts, ex_rm, EventQueue_init)
       = (Inr 0, ex_arts, ex_rm, EventQueue_init)"
  using sell_collected_artifact [of ex_held "''arc_corporate_0000''"
      "ex_relic\<lparr>state := COLLECTED, condition := 0.9, sell_value := 112.5\<rparr>"
      "set_current ex_rm MEMORY 40" EventQueue_init]
    sell_collected_artifact [of ex_arts "''arc_corporate_0000''" ex_relic ex_rm EventQueue_init]
  by (auto simp: ex_held_def ex_arts_def ex_relic_def ex_rm_def ResourceManager_init_def
      MEMORY_COST_def set_current_def)

section \<open>Daemons: alert level and alert state\<close>

lemma clamp01: "0 \<le> max 0 (min 1 (x::real))" "max 0 (min 1 (x::real)) \<le> 1"
  by simp_all

lemma update_alert_fst:
  "fst (update_alert ns p nz d q) =
     (let l = max 0 (min 1 (alert_level d + alert_gain ns p nz d))
      in d\<lparr>alert_level := l,
           alert_state := (if l \<ge> ALERT_THRESHOLD then ALERT
                           else if l \<ge> SUSPICIOUS_THRESHOLD then SUSPICIOUS else IDLE)\<rparr>)"
  by (simp add: update_alert_def Let_def)

lemma update_alert_level:
  assumes "update_alert ns p nz d q = (d', q')"
  shows "0 \<le> alert_level d' \<and> alert_level d' \<le> 1
     \<and> alert_state d' = (if alert_level d' \<ge> 0.75 then ALERT
                          else if alert_level d' \<ge> 0.4 then SUSPICIOUS else IDLE)
     \<and> pacified d' = pacified d"
proof -
  define l where "l = max 0 (min 1 (alert_level d + alert_gain ns p nz d))"
  have b: "0 \<le> l" "l \<le> 1" unfolding l_def by (rule clamp01)+
  from assms have "d' = fst (update_alert ns p nz d q)" by simp
  then have "d' = d\<lparr>alert_level := l,
       alert_state := (if l \<ge> ALERT_THRESHOLD then ALERT
                       else if l \<ge> SUSPICIOUS_THRESHOLD then SUSPICIOUS else IDLE)\<rparr>"
    unfolding update_alert_fst Let_def l_def .
  with b show ?thesis
    by (simp add: ALERT_THRESHOLD_def SUSPICIOUS_THRESHOLD_def)
qed

lemma maybe_move_alert:
  "maybe_move choice ns p d g = (d', g') \<Longrightarrow>
     alert_level d' = alert_level d \<and> alert_state d' = alert_state d \<and> pacified d' = pacified d"
  by (auto simp: maybe_move_def Let_def split: if_splits list.splits prod.splits)

lemma tick_daemons_alert:
  "tick_daemons choice p nz ds st = (ds', st') \<Longrightarrow>
     map fst ds' = map fst ds
     \<and> (\<forall>(k, d) \<in> set ds'. \<not> pacified d \<longrightarrow> alert_ok d)"
proof (induction ds arbitrary: st ds' st')
  case Nil
  then show ?case by simp
next
  case (Cons a ds)
  obtain k d where a: "a = (k, d)" by (cases a)
  show ?case
  proof (cases "pacified d")
    case True
    obtain r s where r: "tick_daemons choice p nz ds st = (r, s)"
      by (cases "tick_daemons choice p nz ds st")
    with Cons.prems a True have "ds' = (k, d) # r" by simp
    with Cons.IH [OF r] True show ?thesis by (simp add: a)
  next
    case False
    obtain sys q where st: "st = (sys, q)" by (cases st)
    obtain d1 q1 where u: "update_alert (ds_nodes sys) p nz d q = (d1, q1)"
      by (cases "update_alert (ds_nodes sys) p nz d q")
    obtain d2 g where m: "maybe_move choice (ds_nodes sys) p d1 (rng sys) = (d2, g)"
      by (cases "maybe_move choice (ds_nodes sys) p d1 (rng sys)")
    obtain rm1 q2 where c: "apply_contact_effects p d2 (ds_rm sys, q1) = (rm1, q2)"
      by (cases "apply_contact_effects p d2 (ds_rm sys, q1)")
    let ?st = "(sys\<lparr>ds_rm := rm1, ds_nodes := corrupt_current_node d2 (ds_nodes sys), rng := g\<rparr>, q2)"
    obtain r s where r: "tick_daemons choice p nz ds ?st = (r, s)"
      by (cases "tick_daemons choice p nz ds ?st")
    from Cons.prems a False st u m c r have e: "ds' = (k, d2) # r" by simp
    from update_alert_level [OF u] maybe_move_alert [OF m] have "alert_ok d2"
      by (simp add: alert_ok_def)
    with Cons.IH [OF r] e show ?thesis by (simp add: a)
  qed
qed


lemma ex_dist1: "distance (nodes ex_fs) ''a'' ''r'' = 1"
  by (simp add: distance_def ex_defs neighbours_def)

lemma ex_dist2: "distance (nodes ex_fs) ''c'' ''r'' = 1"
  by (simp add: distance_def ex_defs neighbours_def)

text \<open>
  C8.  After \<open>tick\<close>, which returns for every input, the system has the same daemons under
  the same keys, and every daemon that is not pacified has its alert level in [0, 1] and
  its alert state determined by that level alone: ALERT from 0.75 up, SUSPICIOUS from 0.4
  up to 0.75, IDLE below 0.4.
\<close>

theorem daemon_tick_alert_invariant:
  assumes "daemon_tick choice player_node_id noise_node_id (sys, q) = (sys', q')"
  shows "map fst (daemons sys') = map fst (daemons sys)
    \<and> (\<forall>(k, d) \<in> set (daemons sys'). \<not> pacified d \<longrightarrow>
          0 \<le> alert_level d \<and> alert_level d \<le> 1
          \<and> alert_state d = (if alert_level d \<ge> 0.75 then ALERT
                              else if alert_level d \<ge> 0.4 then SUSPICIOUS else IDLE))"
proof -
  obtain ds1 st1 where r:
    "tick_daemons choice player_node_id noise_node_id (daemons sys) (sys, q) = (ds1, st1)"
    by (cases "tick_daemons choice player_node_id noise_node_id (daemons sys) (sys, q)")
  with assms have "daemons sys' = ds1"
    by (auto simp: daemon_tick_def split: prod.splits)
  with tick_daemons_alert [OF r] show ?thesis
    by (simp add: alert_ok_def)
qed

theorem daemon_tick_alert_invariant_witness:
  "map (\<lambda>(k, d). (k, pacified d, alert_level d, alert_state d, d_node_id d))
     (daemons (fst (daemon_tick ex_choice ''r'' None (ex_daemons, EventQueue_init))))
   = [(''daemon_1'', False, 0.5, SUSPICIOUS, ''r''), (''daemon_2'', True, 0, IDLE, ''c'')]"
  using daemon_tick_alert_invariant [of ex_choice "''r''" None ex_daemons EventQueue_init
      "fst (daemon_tick ex_choice ''r'' None (ex_daemons, EventQueue_init))"
      "snd (daemon_tick ex_choice ''r'' None (ex_daemons, EventQueue_init))"]
    ex_dist1 ex_dist2
  by (simp add: daemon_tick_def ex_daemons_def ex_watchdog_def ex_sleeper_def update_alert_def
      alert_gain_def maybe_move_def apply_contact_effects_def Let_def ex_choice_def
      ALERT_GAIN_NEAR_def ALERT_DECAY_def ALERT_THRESHOLD_def SUSPICIOUS_THRESHOLD_def
      neighbours_def ex_defs split: prod.splits)


section \<open>Event queue: flush\<close>

lemma flush_with_nested: "flushing (evq st) \<Longrightarrow> flush_with L st = Some st"
  by (simp add: flush_with_def)

lemma run_actions_flushing:
  "flushing (evq st) \<Longrightarrow>
   run_actions (flush_with L) acts st =
     Some (st\<lparr>evq := (evq st)\<lparr>pending := pending (evq st) @ immediate_posts acts,
                                   deferred := deferred (evq st) @ deferred_posts acts\<rparr>\<rparr>)"
proof (induction acts arbitrary: st)
  case Nil
  then show ?case by (simp add: immediate_posts_def deferred_posts_def)
next
  case (Cons a acts)
  show ?case
  proof (cases a)
    case (APost ev)
    have f: "flushing (evq (st\<lparr>evq := post ev (evq st)\<rparr>))"
      using Cons.prems by (simp add: post_def)
    show ?thesis
      using Cons.IH [OF f] APost
      by (simp add: post_def immediate_posts_def deferred_posts_def)
  next
    case AFlush
    with Cons.prems Cons.IH [OF Cons.prems] show ?thesis
      by (simp add: flush_with_nested immediate_posts_def deferred_posts_def)
  qed
qed

lemma run_handlers_flushing:
  "flushing (evq st) \<Longrightarrow>
   \<exists>st' new. run_handlers (flush_with L) H ev hs st = Some st'
     \<and> trace st' = trace st @ new
     \<and> map (\<lambda>(h, e, acts). (h, e)) new = map (\<lambda>h. (h, ev)) hs
     \<and> pending (evq st') = pending (evq st) @ posted new
     \<and> (\<forall>(h, e, acts) \<in> set new. \<exists>s. acts = fst (H h ev s))
     \<and> flushing (evq st') \<and> subscribers (evq st') = subscribers (evq st)"
proof (induction hs arbitrary: st)
  case Nil
  then show ?case by (simp add: posted_def)
next
  case (Cons h hs)
  obtain acts s' where hh: "H h ev (hstate st) = (acts, s')" by (cases "H h ev (hstate st)")
  let ?st0 = "st\<lparr>hstate := s', trace := trace st @ [(h, ev, acts)]\<rparr>"
  let ?st1 = "?st0\<lparr>evq := (evq ?st0)\<lparr>pending := pending (evq ?st0) @ immediate_posts acts,
                 deferred := deferred (evq ?st0) @ deferred_posts acts\<rparr>\<rparr>"
  have f0: "flushing (evq ?st0)" using Cons.prems by simp
  have ra: "run_actions (flush_with L) acts ?st0 = Some ?st1"
    by (rule run_actions_flushing [OF f0])
  have f1: "flushing (evq ?st1)" using Cons.prems by simp
  from Cons.IH [OF f1] obtain st' new where
    r: "run_handlers (flush_with L) H ev hs ?st1 = Some st'"
    and t: "trace st' = trace ?st1 @ new"
    and k: "map (\<lambda>(h, e, acts). (h, e)) new = map (\<lambda>h. (h, ev)) hs"
    and p: "pending (evq st') = pending (evq ?st1) @ posted new"
    and o: "\<forall>(h, e, acts) \<in> set new. \<exists>s. acts = fst (H h ev s)"
    and f: "flushing (evq st')" and s: "subscribers (evq st') = subscribers (evq ?st1)"
    by blast
  have "run_handlers (flush_with L) H ev (h # hs) st = Some st'"
    using hh ra r by simp
  moreover have "trace st' = trace st @ ((h, ev, acts) # new)" using t by simp
  moreover have "map (\<lambda>(h, e, acts). (h, e)) ((h, ev, acts) # new) = map (\<lambda>h. (h, ev)) (h # hs)"
    using k by simp
  moreover have "pending (evq st') = pending (evq st) @ posted ((h, ev, acts) # new)"
    using p by (simp add: posted_def)
  moreover have "subscribers (evq st') = subscribers (evq st)" using s by simp
  moreover have "\<forall>(h, e, acts) \<in> set ((h, ev, acts) # new). \<exists>s. acts = fst (H h ev s)"
    using o hh by (auto intro: exI [of _ "hstate st"])
  ultimately show ?case using f by blast
qed

lemma flush_loop_flushing:
  "flushing (evq st) \<Longrightarrow> flush_loop n H i st = Some st' \<Longrightarrow> i \<le> length (pending (evq st)) \<Longrightarrow>
   \<exists>new. trace st' = trace st @ new
     \<and> pending (evq st') = pending (evq st) @ posted new
     \<and> map (\<lambda>(h, e, acts). (h, e)) new = deliveries (evq st) (drop i (pending (evq st')))
     \<and> flushing (evq st') \<and> subscribers (evq st') = subscribers (evq st)"
proof (induction n arbitrary: i st)
  case 0
  then have "\<not> i < length (pending (evq st))" and "st' = st"
    by (auto simp: flush_loop.simps [of 0] split: if_splits)
  with 0 show ?case by (simp add: posted_def deliveries_def)
next
  case (Suc n)
  show ?case
  proof (cases "i < length (pending (evq st))")
    case False
    with Suc.prems have "st' = st" by (simp add: flush_loop.simps [of "Suc n"])
    with False Suc.prems show ?thesis by (simp add: posted_def deliveries_def)
  next
    case True
    let ?ev = "pending (evq st) ! i"
    let ?F = "flush_with (\<lambda>s. flush_loop n H 0 s)"
    from run_handlers_flushing [OF Suc.prems(1), of _ H ?ev "subscribers (evq st) (etype ?ev)"]
    obtain st1 new1 where
      r: "run_handlers ?F H ?ev (subscribers (evq st) (etype ?ev)) st = Some st1"
      and t1: "trace st1 = trace st @ new1"
      and k1: "map (\<lambda>(h, e, acts). (h, e)) new1
                 = map (\<lambda>h. (h, ?ev)) (subscribers (evq st) (etype ?ev))"
      and p1: "pending (evq st1) = pending (evq st) @ posted new1"
      and o1: "\<forall>(h, e, acts) \<in> set new1. \<exists>s. acts = fst (H h ?ev s)"
      and f1: "flushing (evq st1)" and s1: "subscribers (evq st1) = subscribers (evq st)"
      by blast
    from Suc.prems(2) True r have l: "flush_loop n H (i + 1) st1 = Some st'"
      by (simp add: flush_loop.simps [of "Suc n"])
    have i1: "i + 1 \<le> length (pending (evq st1))" using True p1 by simp
    from Suc.IH [OF f1 l i1] obtain new2 where
      t2: "trace st' = trace st1 @ new2"
      and p2: "pending (evq st') = pending (evq st1) @ posted new2"
      and k2: "map (\<lambda>(h, e, acts). (h, e)) new2
                 = deliveries (evq st1) (drop (i + 1) (pending (evq st')))"
      and f2: "flushing (evq st')" and s2: "subscribers (evq st') = subscribers (evq st1)"
      by blast
    have pp: "pending (evq st') = pending (evq st) @ posted (new1 @ new2)"
      using p1 p2 by (simp add: posted_def)
    have "i < length (pending (evq st'))" using True pp by simp
    moreover have "pending (evq st') ! i = ?ev" using True pp by (simp add: nth_append)
    ultimately have d: "drop i (pending (evq st')) = ?ev # drop (i + 1) (pending (evq st'))"
      by (metis Cons_nth_drop_Suc Suc_eq_plus1)
    have "map (\<lambda>(h, e, acts). (h, e)) (new1 @ new2)
            = deliveries (evq st) (drop i (pending (evq st')))"
      using k1 k2 s1 d by (simp add: deliveries_def)
    moreover have "trace st' = trace st @ (new1 @ new2)" using t1 t2 by simp
    moreover have "subscribers (evq st') = subscribers (evq st)" using s1 s2 by simp
    ultimately show ?thesis using pp f2 by blast
  qed
qed


lemma posted_rank:
  assumes "descending r H" and "\<forall>(h, e, acts) \<in> set new. \<exists>s. acts = fst (H h ev s)"
  shows "\<forall>e \<in> set (posted new). r e < r ev"
  using assms by (fastforce simp: posted_def descending_def)

lemma run_handlers_any_nested:
  "flushing (evq st) \<Longrightarrow>
   run_handlers (flush_with L) H ev hs st = run_handlers (flush_with L') H ev hs st"
proof (induction hs arbitrary: st)
  case Nil
  show ?case by simp
next
  case (Cons h hs)
  obtain acts s' where hh: "H h ev (hstate st) = (acts, s')" by (cases "H h ev (hstate st)")
  let ?st0 = "st\<lparr>hstate := s', trace := trace st @ [(h, ev, acts)]\<rparr>"
  let ?st1 = "?st0\<lparr>evq := (evq ?st0)\<lparr>pending := pending (evq ?st0) @ immediate_posts acts,
                 deferred := deferred (evq ?st0) @ deferred_posts acts\<rparr>\<rparr>"
  have f0: "flushing (evq ?st0)" using Cons.prems by simp
  have f1: "flushing (evq ?st1)" using Cons.prems by simp
  show ?case
    using hh run_actions_flushing [OF f0, of L acts] run_actions_flushing [OF f0, of L' acts]
      Cons.IH [OF f1]
    by simp
qed

lemma flush_loop_returns_aux:
  assumes d: "descending r H"
  shows "\<forall>st i. M = mset (map r (drop i (pending (evq st)))) \<longrightarrow> flushing (evq st)
           \<longrightarrow> (\<exists>n st'. flush_loop n H i st = Some st')"
proof (rule wf_induct [OF wf_mult [OF wf_less_than], of _ M])
  fix M :: "nat multiset"
  assume IH: "\<forall>N. (N, M) \<in> mult less_than \<longrightarrow>
    (\<forall>st i. N = mset (map r (drop i (pending (evq st)))) \<longrightarrow> flushing (evq st)
       \<longrightarrow> (\<exists>n st'. flush_loop n H i st = Some st'))"
  show "\<forall>st i. M = mset (map r (drop i (pending (evq st)))) \<longrightarrow> flushing (evq st)
           \<longrightarrow> (\<exists>n st'. flush_loop n H i st = Some st')"
  proof (intro allI impI)
    fix st :: "'a Bus" and i
    assume M: "M = mset (map r (drop i (pending (evq st))))" and fl: "flushing (evq st)"
    show "\<exists>n st'. flush_loop n H i st = Some st'"
    proof (cases "i < length (pending (evq st))")
      case False
      then have "flush_loop 0 H i st = Some st" by (simp add: flush_loop.simps [of 0])
      then show ?thesis by blast
    next
      case True
      let ?ev = "pending (evq st) ! i"
      let ?hs = "subscribers (evq st) (etype ?ev)"
      from run_handlers_flushing [OF fl, of "\<lambda>s. None" H ?ev ?hs]
      obtain st1 new1 where
        p1: "pending (evq st1) = pending (evq st) @ posted new1"
        and r0: "run_handlers (flush_with (\<lambda>s. None)) H ?ev ?hs st = Some st1"
        and o1: "\<forall>(h, e, acts) \<in> set new1. \<exists>s. acts = fst (H h ?ev s)"
        and f1: "flushing (evq st1)"
        by blast
      have rk: "\<forall>e \<in> set (posted new1). r e < r ?ev" by (rule posted_rank [OF d o1])
      have dr: "drop i (pending (evq st)) = ?ev # drop (Suc i) (pending (evq st))"
        using True by (simp add: Cons_nth_drop_Suc)
      have m1: "mset (map r (drop (Suc i) (pending (evq st1))))
          = mset (map r (drop (Suc i) (pending (evq st)))) + mset (map r (posted new1))"
        using True p1 by simp
      have m0: "M = mset (map r (drop (Suc i) (pending (evq st)))) + {#r ?ev#}"
        by (simp add: M dr)
      have "(mset (map r (drop (Suc i) (pending (evq st)))) + mset (map r (posted new1)),
             mset (map r (drop (Suc i) (pending (evq st)))) + {#r ?ev#}) \<in> mult less_than"
        by (rule one_step_implies_mult) (use rk in auto)
      then have "(mset (map r (drop (Suc i) (pending (evq st1)))), M) \<in> mult less_than"
        by (simp only: m1 m0)
      with IH f1 obtain n st' where l: "flush_loop n H (Suc i) st1 = Some st'"
        by blast
      have same: "run_handlers (flush_with (\<lambda>s. flush_loop n H 0 s)) H ?ev ?hs st = Some st1"
        using run_handlers_any_nested [OF fl, of "\<lambda>s. flush_loop n H 0 s" H ?ev ?hs "\<lambda>s. None"] r0
        by simp
      have "flush_loop (Suc n) H i st = Some st'"
        using True same l by (simp add: flush_loop.simps [of "Suc n"])
      then show ?thesis by blast
    qed
  qed
qed


lemma ex_flush: "flush 2 ex_handlers ex_bus =
   Some (ex_bus\<lparr>evq := (evq ex_bus)\<lparr>pending := []\<rparr>, hstate := 2,
     trace := [(0, ex_scan_done, [APost ex_log_entry, AFlush]), (1, ex_scan_done, []),
               (1, ex_log_entry, [])]\<rparr>)"
  by (simp add: flush_def flush_with_def flush_loop.simps numeral_2_eq_2 ex_bus_def
      ex_handlers_def ex_scan_done_def ex_log_entry_def EventQueue_init_def post_def)

lemma ex_descending: "descending ex_rank ex_handlers"
  by (simp add: descending_def ex_handlers_def ex_rank_def immediate_posts_def ex_log_entry_def)

text \<open>
  C5.  A call of \<open>flush\<close> while a flush is in progress returns at once and changes
  nothing.  A flush that returns has called, for every event that was pending at its start
  and then for every immediate event that a handler posted during it, in post order, every
  subscriber registered for the event's type, in subscription order; the posted events
  were appended to the same pending list and dispatched by the same loop, and on return
  nothing is pending and the flag is down.  Whenever the immediate posts of the handlers
  descend in some rank (in particular when handlers post no immediate events), the flush
  does return.
\<close>

theorem flush_dispatches_in_post_order:
  "(flushing (evq st) \<longrightarrow> flush fuel H st = Some st)
   \<and> (\<not> flushing (evq st) \<and> flush fuel H st = Some st' \<longrightarrow>
        (\<exists>new. trace st' = trace st @ new
           \<and> map (\<lambda>(h, e, acts). (h, e)) new
               = deliveries (evq st) (pending (evq st) @ posted new)
           \<and> pending (evq st') = [] \<and> \<not> flushing (evq st')
           \<and> subscribers (evq st') = subscribers (evq st)))
   \<and> (\<not> flushing (evq st) \<and> descending r H \<longrightarrow> (\<exists>n st''. flush n H st = Some st''))"
proof (intro conjI impI)
  assume "flushing (evq st)"
  then show "flush fuel H st = Some st" by (simp add: flush_def flush_with_nested)
next
  assume a: "\<not> flushing (evq st) \<and> flush fuel H st = Some st'"
  let ?st1 = "st\<lparr>evq := (evq st)\<lparr>flushing := True\<rparr>\<rparr>"
  from a obtain st2 where l: "flush_loop fuel H 0 ?st1 = Some st2"
    and e: "st' = st2\<lparr>evq := (evq st2)\<lparr>pending := [], flushing := False\<rparr>\<rparr>"
    by (auto simp: flush_def flush_with_def split: option.splits)
  have f: "flushing (evq ?st1)" by simp
  from flush_loop_flushing [OF f l] obtain new where
    "trace st2 = trace ?st1 @ new"
    "pending (evq st2) = pending (evq ?st1) @ posted new"
    "map (\<lambda>(h, e, acts). (h, e)) new = deliveries (evq ?st1) (drop 0 (pending (evq st2)))"
    "subscribers (evq st2) = subscribers (evq ?st1)"
    by auto
  with e have "trace st' = trace st @ new
     \<and> map (\<lambda>(h, e, acts). (h, e)) new = deliveries (evq st) (pending (evq st) @ posted new)
     \<and> pending (evq st') = [] \<and> \<not> flushing (evq st')
     \<and> subscribers (evq st') = subscribers (evq st)"
    by (simp add: deliveries_def)
  then show "\<exists>new. trace st' = trace st @ new
     \<and> map (\<lambda>(h, e, acts). (h, e)) new = deliveries (evq st) (pending (evq st) @ posted new)
     \<and> pending (evq st') = [] \<and> \<not> flushing (evq st')
     \<and> subscribers (evq st') = subscribers (evq st)" by blast
next
  assume a: "\<not> flushing (evq st) \<and> descending r H"
  let ?st1 = "st\<lparr>evq := (evq st)\<lparr>flushing := True\<rparr>\<rparr>"
  have f: "flushing (evq ?st1)" by simp
  from a flush_loop_returns_aux [of r H "mset (map r (drop 0 (pending (evq ?st1))))"] f
  obtain n st2 where "flush_loop n H 0 ?st1 = Some st2" by blast
  with a have "flush n H st = Some (st2\<lparr>evq := (evq st2)\<lparr>pending := [], flushing := False\<rparr>\<rparr>)"
    by (simp add: flush_def flush_with_def)
  then show "\<exists>n st''. flush n H st = Some st''" by blast
qed

theorem flush_dispatches_in_post_order_witness:
  "\<not> flushing (evq ex_bus) \<and> descending ex_rank ex_handlers
   \<and> (\<exists>st'. flush 2 ex_handlers ex_bus = Some st'
        \<and> map (\<lambda>(h, e, acts). (h, etype e)) (trace st')
            = [(0, SCAN_COMPLETE), (1, SCAN_COMPLETE), (1, LOG_ENTRY_ADDED)]
        \<and> pending (evq st') = [] \<and> \<not> flushing (evq st')
        \<and> flush 2 ex_handlers (st'\<lparr>evq := (evq st')\<lparr>flushing := True\<rparr>\<rparr>)
            = Some (st'\<lparr>evq := (evq st')\<lparr>flushing := True\<rparr>\<rparr>))"
  using flush_dispatches_in_post_order [of ex_bus 2 ex_handlers
      "ex_bus\<lparr>evq := (evq ex_bus)\<lparr>pending := []\<rparr>, hstate := 2,
        trace := [(0, ex_scan_done, [APost ex_log_entry, AFlush]), (1, ex_scan_done, []),
                  (1, ex_log_entry, [])]\<rparr>" ex_rank]
    ex_flush ex_descending
  by (simp add: ex_bus_def EventQueue_init_def ex_scan_done_def ex_log_entry_def flush_def
      flush_with_def)


section \<open>Site generator: determinism\<close>

text \<open>Every step of the generator commutes with an injective renaming of the ids.\<close>

lemma ren_sel [simp]:
  "name (ren f n) = name n" "node_type (ren f n) = node_type n"
  "node_id (ren f n) = f (node_id n)" "parent_id (ren f n) = map_option f (parent_id n)"
  "children_ids (ren f n) = map f (children_ids n)" "corruption (ren f n) = corruption n"
  "visibility (ren f n) = visibility n" "artifact_id (ren f n) = artifact_id n"
  "metadata (ren f n) = metadata n"
  by (simp_all add: ren_def)

lemma ren_upd [simp]:
  "ren f (n\<lparr>children_ids := cs\<rparr>) = (ren f n)\<lparr>children_ids := map f cs\<rparr>"
  "ren f (n\<lparr>visibility := v\<rparr>) = (ren f n)\<lparr>visibility := v\<rparr>"
  "ren f (n\<lparr>artifact_id := a\<rparr>) = (ren f n)\<lparr>artifact_id := a\<rparr>"
  "ren f (n\<lparr>metadata := m\<rparr>) = (ren f n)\<lparr>metadata := m\<rparr>"
  by (simp_all add: ren_def)

lemma ren_pred [simp]:
  "is_directory (ren f n) = is_directory n" "is_file (ren f n) = is_file n"
  by (simp_all add: is_directory_def is_file_def)

lemma ren_gen_sel [simp]:
  "g_nodes (ren_gen f st) = ren_nodes f (g_nodes st)"
  "g_rng (ren_gen f st) = g_rng st" "g_next (ren_gen f st) = g_next st"
  by (simp_all add: ren_gen_def)

lemma ren_gen_upd [simp]:
  "ren_gen f (st\<lparr>g_rng := g\<rparr>) = (ren_gen f st)\<lparr>g_rng := g\<rparr>"
  "ren_gen f (st\<lparr>g_next := k\<rparr>) = (ren_gen f st)\<lparr>g_next := k\<rparr>"
  "ren_gen f (st\<lparr>g_nodes := ns\<rparr>) = (ren_gen f st)\<lparr>g_nodes := ren_nodes f ns\<rparr>"
  by (simp_all add: ren_gen_def)

lemma ren_nodes_simps [simp]:
  "ren_nodes f [] = []" "ren_nodes f ((k, n) # ns) = (f k, ren f n) # ren_nodes f ns"
  by (simp_all add: ren_nodes_def)

lemma map_of_ren_nodes:
  "inj f \<Longrightarrow> map_of (ren_nodes f ns) (f k) = map_option (ren f) (map_of ns k)"
  by (induction ns) (auto simp: inj_eq)

lemma update_ren_nodes:
  "inj f \<Longrightarrow> AList.update (f k) (ren f v) (ren_nodes f ns) = ren_nodes f (AList.update k v ns)"
  by (induction ns) (auto simp: inj_eq)

lemma structure_ren_nodes: "site_structure (ren_nodes f ns) = site_structure ns"
  by (induction ns) (auto simp: site_structure_def)

lemma lookup_child_name_ren:
  "inj f \<Longrightarrow> lookup_child_name nm (ren f parent) (ren_nodes f ns) = lookup_child_name nm parent ns"
  by (simp add: lookup_child_name_def filter_map o_def map_of_ren_nodes option.case_eq_if
      option.map_sel)

lemma make_node_ren:
  "make_node R (\<lambda>k. f (ids k)) profile nm ntype (map_option f pid) (ren_gen f st)
     = (case make_node R ids profile nm ntype pid st of (n, st') \<Rightarrow> (ren f n, ren_gen f st'))"
  by (simp add: make_node_def ren_def split: prod.splits)

lemma add_child_ren:
  "inj f \<Longrightarrow> add_child (f c) (ren f n) = map_sum id (ren f) (add_child c n)"
  by (auto simp: add_child_def inj_eq)


lemma build_ren:
  assumes f: "inj f"
  shows "build_tree R (\<lambda>k. f (ids k)) profile (ren f parent) depth (ren_gen f st)
           = map_sum id (ren_gen f) (build_tree R ids profile parent depth st)"
    and "build_branches R (\<lambda>k. f (ids k)) profile (ren f parent) depth name_pool idxs (ren_gen f st)
           = map_sum id (ren_gen f) (build_branches R ids profile parent depth name_pool idxs st)"
proof (induction R ids profile parent depth st and R ids profile parent depth name_pool idxs st
    rule: build_tree_build_branches.induct)
  case (1 R ids profile parent depth st)
  show ?case
  proof (cases "max_depth profile \<le> depth")
    case True
    then show ?thesis by (simp add: build_tree.simps)
  next
    case False
    obtain x g1 where a: "rng_gauss R (branch_factor profile) 0.8 (g_rng st) = (x, g1)"
      by (cases "rng_gauss R (branch_factor profile) 0.8 (g_rng st)")
    obtain pool g2 where b: "rng_shuffle R (dir_names profile) g1 = (pool, g2)"
      by (cases "rng_shuffle R (dir_names profile) g1")
    from "1.IH" [OF False a [symmetric] b [symmetric]] False a b show ?thesis
      by (simp add: build_tree.simps)
  qed
next
  case (2 R ids profile parent depth name_pool st)
  show ?case by (simp add: build_branches.simps)
next
  case (3 R ids profile parent depth name_pool i rest st)
  show ?case
  proof (cases "name_pool = []")
    case True
    then show ?thesis by (simp add: build_branches.simps)
  next
    case False
    define nm0 where "nm0 = name_pool ! (i mod length name_pool)"
    define nm where "nm = (if py_any (lookup_child_name nm0 parent (g_nodes st))
                           then nm0 @ ''_'' @ str_nat i else nm0)"
    obtain child st1 where m: "make_node R ids profile nm DIRECTORY (Some (node_id parent)) st
        = (child, st1)"
      by (cases "make_node R ids profile nm DIRECTORY (Some (node_id parent)) st")
    have m': "make_node R (\<lambda>k. f (ids k)) profile nm DIRECTORY (Some (f (node_id parent))) (ren_gen f st)
        = (ren f child, ren_gen f st1)"
      using make_node_ren [of R f ids profile nm DIRECTORY "Some (node_id parent)" st] m by simp
    show ?thesis
    proof (cases "add_child (node_id child) parent")
      case (Inl e)
      then show ?thesis
        using False m m' add_child_ren [OF f, of "node_id child" parent]
        by (simp add: build_branches.simps Let_def lookup_child_name_ren [OF f]
            nm0_def [symmetric] nm_def [symmetric])
    next
      case (Inr parent')
      let ?st2 = "st1\<lparr>g_nodes := AList.update (node_id parent') parent'
                       (AList.update (node_id child) child (g_nodes st1))\<rparr>"
      note ih1 = "3.IH"(1) [OF False nm0_def nm_def m [symmetric] Inr]
      show ?thesis
      proof (cases "build_tree R ids profile child (depth + 1) ?st2")
        case (Inl e)
        then show ?thesis
          using False m m' add_child_ren [OF f, of "node_id child" parent] Inr ih1
          by (simp add: build_branches.simps Let_def lookup_child_name_ren [OF f]
              nm0_def [symmetric] nm_def [symmetric] update_ren_nodes [OF f])
      next
        case st2: (Inr st2)
        note ih2 = "3.IH"(2) [OF False nm0_def nm_def m [symmetric] Inr st2]
        show ?thesis
          using False m m' add_child_ren [OF f, of "node_id child" parent] Inr ih1 st2 ih2
          by (simp add: build_branches.simps Let_def lookup_child_name_ren [OF f]
              nm0_def [symmetric] nm_def [symmetric] update_ren_nodes [OF f])
      qed
    qed
  qed
qed


lemma place_files_ren:
  assumes f: "inj f"
  shows "place_files R (\<lambda>k. f (ids k)) profile dratio file_pool debris_pool (ren f leaf) idxs
           (ren_gen f st)
         = map_sum id (ren_gen f)
             (place_files R ids profile dratio file_pool debris_pool leaf idxs st)"
proof (induction idxs arbitrary: leaf st)
  case Nil
  show ?case by simp
next
  case (Cons i rest)
  obtain x g1 where r: "rng_random R (g_rng st) = (x, g1)" by (cases "rng_random R (g_rng st)")
  show ?case
  proof (cases "if x < dratio then debris_pool = [] else file_pool = []")
    case True
    with r show ?thesis by simp
  next
    case False
    define nm where "nm = (if x < dratio then debris_pool ! (i mod length debris_pool)
                           else file_pool ! (i mod length file_pool))"
    define ntype where "ntype = (if x < dratio then DEBRIS else FILE)"
    obtain child st1 where m:
      "make_node R ids profile nm ntype (Some (node_id leaf)) (st\<lparr>g_rng := g1\<rparr>) = (child, st1)"
      by (cases "make_node R ids profile nm ntype (Some (node_id leaf)) (st\<lparr>g_rng := g1\<rparr>)")
    have m': "make_node R (\<lambda>k. f (ids k)) profile nm ntype (Some (f (node_id leaf)))
                ((ren_gen f st)\<lparr>g_rng := g1\<rparr>) = (ren f child, ren_gen f st1)"
      using make_node_ren [of R f ids profile nm ntype "Some (node_id leaf)" "st\<lparr>g_rng := g1\<rparr>"] m
      by simp
    show ?thesis
    proof (cases "add_child (node_id child) leaf")
      case (Inl e)
      then show ?thesis
        using False r m m' add_child_ren [OF f, of "node_id child" leaf]
        by (simp add: Let_def nm_def [symmetric] ntype_def [symmetric])
    next
      case (Inr leaf')
      let ?st2 = "st1\<lparr>g_nodes := AList.update (node_id leaf') leaf'
                       (AList.update (node_id child) child (g_nodes st1))\<rparr>"
      show ?thesis
        using False r m m' add_child_ren [OF f, of "node_id child" leaf] Inr
          Cons.IH [of leaf' ?st2]
        by (simp add: Let_def nm_def [symmetric] ntype_def [symmetric] update_ren_nodes [OF f])
    qed
  qed
qed

lemma populate_leaves_ren:
  assumes f: "inj f"
  shows "populate_leaves R (\<lambda>k. f (ids k)) profile dratio (map (ren f) leaves) (ren_gen f st)
         = map_sum id (ren_gen f) (populate_leaves R ids profile dratio leaves st)"
proof (induction leaves arbitrary: st)
  case Nil
  show ?case by simp
next
  case (Cons leaf rest)
  obtain x g1 where a: "rng_gauss R (files_per_dir profile) 1.0 (g_rng st) = (x, g1)"
    by (cases "rng_gauss R (files_per_dir profile) 1.0 (g_rng st)")
  obtain fp g2 where b: "rng_shuffle R (file_names profile) g1 = (fp, g2)"
    by (cases "rng_shuffle R (file_names profile) g1")
  obtain dp g3 where c: "rng_shuffle R (debris_names profile) g2 = (dp, g3)"
    by (cases "rng_shuffle R (debris_names profile) g2")
  let ?idx = "[0 ..< nat (max 0 (round_half_even x))]"
  show ?case
  proof (cases "place_files R ids profile dratio fp dp leaf ?idx (st\<lparr>g_rng := g3\<rparr>)")
    case (Inl e)
    with a b c place_files_ren [OF f, of R ids profile dratio fp dp leaf ?idx "st\<lparr>g_rng := g3\<rparr>"]
    show ?thesis by simp
  next
    case (Inr st1)
    with a b c place_files_ren [OF f, of R ids profile dratio fp dp leaf ?idx "st\<lparr>g_rng := g3\<rparr>"]
      Cons.IH [of st1]
    show ?thesis by simp
  qed
qed

lemma leaf_dirs_ren:
  assumes f: "inj f"
  shows "leaf_dirs (ren_nodes f ns) = map (ren f) (leaf_dirs ns)"
proof -
  have k: "\<And>cs. py_any (map (\<lambda>cid. case map_of (ren_nodes f ns) cid of None \<Rightarrow> False
                                     | Some c \<Rightarrow> is_directory c)
                (filter (\<lambda>cid. map_of (ren_nodes f ns) cid \<noteq> None) (map f cs)))
          = py_any (map (\<lambda>cid. case map_of ns cid of None \<Rightarrow> False | Some c \<Rightarrow> is_directory c)
                (filter (\<lambda>cid. map_of ns cid \<noteq> None) cs))"
    by (auto simp: py_any_def map_of_ren_nodes [OF f] split: option.splits)
  have s: "map snd (ren_nodes f ns) = map (ren f) (map snd ns)"
    by (induction ns) auto
  show ?thesis
    unfolding leaf_dirs_def s filter_map o_def
    by (simp add: k del: not_None_eq)
qed

lemma populate_ren:
  assumes f: "inj f"
  shows "populate R (\<lambda>k. f (ids k)) profile (ren_gen f st)
         = map_sum id (ren_gen f) (populate R ids profile st)"
  by (simp add: populate_def leaf_dirs_ren [OF f] populate_leaves_ren [OF f])

lemma seed_loop_ren:
  "seed_loop R profile density i (ren_nodes f ns) g
     = (case seed_loop R profile density i ns g of (ns', g') \<Rightarrow> (ren_nodes f ns', g'))"
proof (induction ns arbitrary: i g)
  case Nil
  show ?case by simp
next
  case (Cons a ns)
  obtain k n where a: "a = (k, n)" by (cases a)
  show ?case
    by (simp add: a Cons.IH split: prod.splits)
qed

lemma seed_artifacts_ren:
  "seed_artifacts R profile (ren_gen f st) = ren_gen f (seed_artifacts R profile st)"
  by (simp add: seed_artifacts_def seed_loop_ren split: prod.splits)

lemma generate_nodes_ren:
  fixes f :: "'i \<Rightarrow> 'j" and ids :: "nat \<Rightarrow> 'i" and R :: "'g Random"
  assumes f: "inj f"
  shows "generate_nodes R (\<lambda>k. f (ids k)) profile seed_override
         = map_sum id (\<lambda>(rt, ns). (ren f rt, ren_nodes f ns))
             (generate_nodes R ids profile seed_override)"
proof -
  define sd where "sd = (case seed_override of None \<Rightarrow> seed profile | Some s \<Rightarrow> s)"
  define st0 :: "('i, 'g) Gen" where "st0 = \<lparr>g_nodes = [], g_rng = rng_new R sd, g_next = 0\<rparr>"
  have st0': "\<lparr>g_nodes = [], g_rng = rng_new R sd, g_next = 0\<rparr> = ren_gen f st0"
    by (simp add: st0_def ren_gen_def)
  obtain root0 st1 where m: "make_node R ids profile ''root'' DIRECTORY None st0 = (root0, st1)"
    by (cases "make_node R ids profile ''root'' DIRECTORY None st0")
  have m': "make_node R (\<lambda>k. f (ids k)) profile ''root'' DIRECTORY None (ren_gen f st0)
              = (ren f root0, ren_gen f st1)"
    using make_node_ren [of R f ids profile "''root''" DIRECTORY None st0] m by simp
  let ?rt = "root0\<lparr>visibility := REVEALED\<rparr>"
  let ?st2 = "st1\<lparr>g_nodes := AList.update (node_id ?rt) ?rt (g_nodes st1)\<rparr>"
  have b: "build_tree R (\<lambda>k. f (ids k)) profile (ren f ?rt) 0 (ren_gen f ?st2)
             = map_sum id (ren_gen f) (build_tree R ids profile ?rt 0 ?st2)"
    by (rule build_ren(1) [OF f])
  show ?thesis
  proof (cases "build_tree R ids profile ?rt 0 ?st2")
    case (Inl e)
    with b m m' show ?thesis
      unfolding generate_nodes_def Let_def sd_def [symmetric] st0'
      by (simp add: st0_def [symmetric] update_ren_nodes [OF f, symmetric])
  next
    case (Inr st3)
    show ?thesis
    proof (cases "populate R ids profile st3")
      case (Inl e)
      with Inr b m m' populate_ren [OF f, of R ids profile st3] show ?thesis
        unfolding generate_nodes_def Let_def sd_def [symmetric] st0'
        by (simp add: st0_def [symmetric] update_ren_nodes [OF f, symmetric])
    next
      case st4: (Inr st4)
      with Inr b m m' populate_ren [OF f, of R ids profile st3] show ?thesis
        unfolding generate_nodes_def Let_def sd_def [symmetric] st0'
        by (simp add: st0_def [symmetric] update_ren_nodes [OF f, symmetric] seed_artifacts_ren)
    qed
  qed
qed


lemma ex_uuid_inj: "inj ex_uuid_a" "inj ex_uuid_b"
  by (auto simp: inj_def ex_uuid_a_def ex_uuid_b_def dest: arg_cong [where f = length])

lemma round_half_even_small: "round_half_even 0 = 0" "round_half_even 2 = 2"
  using round_half_even_of_int [of 0] round_half_even_of_int [of 2] by simp_all

lemma ex_generate:
  "map_sum id (\<lambda>fs. site_structure (nodes fs)) (generate ex_random ex_uuid_a ex_profile (Some 7))
   = Inr [(''root'', DIRECTORY, 0.1, REVEALED, None),
          (''readme.txt'', FILE, 0.1, HIDDEN, Some ''arc_corporate_0000''),
          (''memo.doc'', FILE, 0.1, HIDDEN, Some ''arc_corporate_0001'')]"
  by (simp add: generate_def generate_nodes_def Let_def make_node_def ex_random_def
      ex_profile_def build_tree.simps build_branches.simps round_half_even_small
      populate_def leaf_dirs_def py_any_def is_directory_def is_file_def ex_uuid_a_def
      add_child_def seed_artifacts_def Filesystem_init_def site_structure_def
      str_nat.simps zero_pad4_def upt_rec numeral_2_eq_2 numeral_3_eq_3)

text \<open>
  C1.  For every profile, every seed (given or taken from the profile) and every random
  generator, two runs of \<open>generate\<close> differ at most in the ids that \<open>uuid4\<close> hands out: with
  any two supplies of distinct ids, either both runs raise the same error or both return
  filesystems with the same number of nodes and, node for node in creation order, the same
  names, node types, corruption values, visibilities and artifact ids.
\<close>

theorem generate_deterministic:
  assumes "inj ids1" and "inj ids2"
  shows "map_sum id (\<lambda>fs. site_structure (nodes fs)) (generate R ids1 profile seed_override)
       = map_sum id (\<lambda>fs. site_structure (nodes fs)) (generate R ids2 profile seed_override)"
proof -
  have c: "map_sum id (\<lambda>fs. site_structure (nodes fs)) (generate R ids profile seed_override)
      = (case generate_nodes R (\<lambda>k. k) profile seed_override of
           Inl e \<Rightarrow> Inl e
         | Inr (rt, ns) \<Rightarrow> if \<not> is_directory rt then Inl FilesystemError
                           else Inr (site_structure ns))"
    if "inj ids" for ids :: "nat \<Rightarrow> string"
    using generate_nodes_ren [OF that, of R "\<lambda>k. k" profile seed_override]
    by (auto simp: generate_def Filesystem_init_def structure_ren_nodes
        split: sum.splits prod.splits)
  from c [OF assms(1)] c [OF assms(2)] show ?thesis by simp
qed

theorem generate_deterministic_witness:
  "inj ex_uuid_a \<and> inj ex_uuid_b
   \<and> map_sum id (\<lambda>fs. site_structure (nodes fs))
        (generate ex_random ex_uuid_b ex_profile (Some 7))
     = Inr [(''root'', DIRECTORY, 0.1, REVEALED, None),
            (''readme.txt'', FILE, 0.1, HIDDEN, Some ''arc_corporate_0000''),
            (''memo.doc'', FILE, 0.1, HIDDEN, Some ''arc_corporate_0001'')]"
  using generate_deterministic [OF ex_uuid_inj, of ex_random ex_profile "Some 7"]
    ex_generate ex_uuid_inj
  by simp


end
